theory Spec2Isabelle
  imports Main "HOL-Library.Char_ord" "HOL-Library.List_Lexorder" "HOL-Library.Product_Lexorder"
begin

section \<open>Data model\<close>

text \<open>
  The sources hold two copies of the comment service and two copies of the detail page:
  \<^item> \<^verbatim>\<open>src/services/shortFilmCommentsService.ts\<close>: the service; its functions keep their
    names here;
  \<^item> the copy of the service appended to \<^verbatim>\<open>src/components/pages/AdminApplicationDetailPage.tsx\<close>
    (lines 666 to 1101); where a function of this copy differs it is modelled under the
    suffix \<open>_P\<close>;
  \<^item> the page of \<^verbatim>\<open>unnamed/part_000\<close>; its handler keeps the name \<open>handleSaveScore\<close>;
  \<^item> the page of \<^verbatim>\<open>src/components/pages/AdminApplicationDetailPage.tsx\<close> (lines 1 to 665);
    its handler is \<open>handleSaveScore_P\<close>.

  JavaScript numbers are modelled as \<open>int\<close> (the sub-scores are integers), timestamps as
  \<open>nat\<close> (milliseconds), a \<^verbatim>\<open>Record<string, any>\<close> as an association list of JSON values.
\<close>

datatype comment_type = General | Scoring | Status_change | Flag

datatype json = JString string | JBool bool | JNull

type_synonym metadata_t = "(string \<times> json) list"

text \<open>\<^verbatim>\<open>ScoringCommentData\<close>, the \<^verbatim>\<open>scores\<close> object of a scoring comment.\<close>

record ScoringCommentData =
  technical :: int
  story :: int
  creativity :: int
  chiangmai :: int
  humanEffort :: int
  totalScore :: int

text \<open>
  The data of one document of the \<^verbatim>\<open>ShortFilmComments\<close> sub-collection, with the fields
  the service writes. \<^verbatim>\<open>createdAt\<close> holds the time the server put in place of the
  \<^verbatim>\<open>serverTimestamp()\<close> sentinel; \<^verbatim>\<open>scores\<close>, \<^verbatim>\<open>metadata\<close> and \<^verbatim>\<open>updatedAt\<close> may be absent.
\<close>

record commentData =
  submissionId :: string
  adminId :: string
  adminName :: string
  adminEmail :: string
  content :: string
  type :: comment_type
  scores :: "ScoringCommentData option"
  metadata :: "metadata_t option"
  createdAt :: nat
  updatedAt :: "nat option"
  isEdited :: bool
  isDeleted :: bool

text \<open>\<^verbatim>\<open>interface ShortFilmComment\<close>: the document data together with the document id.\<close>

record ShortFilmComment = commentData +
  doc_id :: string

text \<open>A time field as the page holds it: a \<^verbatim>\<open>Date\<close>, or the \<^verbatim>\<open>serverTimestamp()\<close> sentinel.\<close>

datatype time_value = Date nat | ServerTimestamp

text \<open>
  Modelled from the spec: \<^verbatim>\<open>ScoringCriteria\<close> of \<^verbatim>\<open>types/admin.types\<close> is not among the
  sources. It has the six score fields and the fields the page reads or writes on an element
  of the submission's \<^verbatim>\<open>scores\<close> array (\<^verbatim>\<open>adminId\<close>, \<^verbatim>\<open>adminName\<close>, \<^verbatim>\<open>scoredAt\<close>,
  \<^verbatim>\<open>comments\<close>), here with the prefix \<open>sc_\<close>.
\<close>

record ScoringCriteria = ScoringCommentData +
  sc_adminId :: string
  sc_adminName :: string
  sc_scoredAt :: "time_value option"
  sc_comments :: "string option"

text \<open>The part of a submission document that the score-saving path writes.\<close>

record submissionData =
  sub_scores :: "ScoringCriteria list"
  lastModified :: "nat option"
  lastReviewedAt :: "nat option"

section \<open>The document store\<close>

text \<open>
  The Firestore SDK is an external collaborator. Its calls are modelled by their documented
  contract:
  \<^item> any call can be rejected (the backend cannot be reached, permission is denied, an index
    is missing); the field \<open>reachable\<close> of the store says that calls are not rejected;
  \<^item> \<^verbatim>\<open>addDoc\<close> stores the data under an automatically generated id, here the argument
    \<open>newId\<close> (like \<^verbatim>\<open>setDoc\<close>, it would replace a document that has this id already);
  \<^item> \<^verbatim>\<open>updateDoc\<close> fails when the document does not exist, and otherwise writes the given
    fields and leaves every other field as it is;
  \<^item> a query keeps the documents that satisfy every \<^verbatim>\<open>where\<close> clause, orders them by
    \<^verbatim>\<open>createdAt\<close> descending (documents with equal \<^verbatim>\<open>createdAt\<close> by document id, descending
    too) and, under \<^verbatim>\<open>limit(n)\<close>, keeps the first \<open>n\<close>.
\<close>

type_synonym collection = "(string \<times> commentData) list"

datatype FirestoreError = Unavailable | Not_found | Invalid_argument

record firestore =
  reachable :: bool
  ShortFilmComments :: "string \<Rightarrow> collection"
  submissions :: "string \<Rightarrow> submissionData option"

definition has_doc :: "collection \<Rightarrow> string \<Rightarrow> bool" where
  "has_doc c i = (i \<in> set (map fst c))"

definition patch_doc :: "string \<Rightarrow> (commentData \<Rightarrow> commentData) \<Rightarrow> collection \<Rightarrow> collection" where
  "patch_doc i f c = map (\<lambda>(j, d). if j = i then (j, f d) else (j, d)) c"

definition put_doc :: "string \<Rightarrow> commentData \<Rightarrow> collection \<Rightarrow> collection" where
  "put_doc i d c = (if has_doc c i then patch_doc i (\<lambda>_. d) c else c @ [(i, d)])"

definition addDoc ::
  "firestore \<Rightarrow> string \<Rightarrow> string \<Rightarrow> commentData \<Rightarrow> FirestoreError + (string \<times> firestore)" where
  "addDoc fs sid newId d =
     (if \<not> reachable fs then Inl Unavailable
      else Inr (newId,
        fs\<lparr>ShortFilmComments := (ShortFilmComments fs)(sid := put_doc newId d (ShortFilmComments fs sid))\<rparr>))"

definition updateDoc ::
  "firestore \<Rightarrow> string \<Rightarrow> string \<Rightarrow> (commentData \<Rightarrow> commentData) \<Rightarrow> FirestoreError + firestore" where
  "updateDoc fs sid i f =
     (if \<not> reachable fs then Inl Unavailable
      else if \<not> has_doc (ShortFilmComments fs sid) i then Inl Not_found
      else Inr (fs\<lparr>ShortFilmComments := (ShortFilmComments fs)(sid := patch_doc i f (ShortFilmComments fs sid))\<rparr>))"

definition updateSubmission ::
  "firestore \<Rightarrow> string \<Rightarrow> (submissionData \<Rightarrow> submissionData) \<Rightarrow> FirestoreError + firestore" where
  "updateSubmission fs sid f =
     (if \<not> reachable fs then Inl Unavailable
      else case submissions fs sid of
        None \<Rightarrow> Inl Not_found
      | Some s \<Rightarrow> Inr (fs\<lparr>submissions := (submissions fs)(sid := Some (f s))\<rparr>))"

definition orderByCreatedAtDesc :: "collection \<Rightarrow> collection" where
  "orderByCreatedAtDesc c = rev (sort_key (\<lambda>(i, d). (createdAt d, i)) c)"

definition runQuery :: "(commentData \<Rightarrow> bool) \<Rightarrow> nat option \<Rightarrow> collection \<Rightarrow> collection" where
  "runQuery wh lim c =
     (let r = orderByCreatedAtDesc (filter (\<lambda>(i, d). wh d) c)
      in case lim of None \<Rightarrow> r | Some n \<Rightarrow> take n r)"

definition getDocs ::
  "firestore \<Rightarrow> string \<Rightarrow> (commentData \<Rightarrow> bool) \<Rightarrow> nat option \<Rightarrow> FirestoreError + collection" where
  "getDocs fs sid wh lim =
     (if \<not> reachable fs then Inl Unavailable else Inr (runQuery wh lim (ShortFilmComments fs sid)))"

section \<open>The comment service (services/shortFilmCommentsService.ts)\<close>

text \<open>A thrown \<^verbatim>\<open>new Error(message)\<close>.\<close>

datatype error = Error string

text \<open>
  The object built in every \<^verbatim>\<open>snapshot.forEach\<close> and in \<^verbatim>\<open>getLatestScoreByAdmin\<close>. The
  fallback of \<^verbatim>\<open>data.createdAt?.toDate() || new Date()\<close> is for a \<^verbatim>\<open>createdAt\<close> that the
  server has not set yet; the stored documents of this model have it set.
\<close>

definition toComment :: "string \<times> commentData \<Rightarrow> ShortFilmComment" where
  "toComment p = (case p of (i, d) \<Rightarrow>
     \<lparr>submissionId = submissionId d, adminId = adminId d, adminName = adminName d,
      adminEmail = adminEmail d, content = content d, type = type d, scores = scores d,
      metadata = metadata d, createdAt = createdAt d, updatedAt = updatedAt d,
      isEdited = (isEdited d \<or> False), isDeleted = (isDeleted d \<or> False), doc_id = i\<rparr>)"

text \<open>\<^verbatim>\<open>x || fallback\<close> on an optional string: \<^verbatim>\<open>undefined\<close>, \<^verbatim>\<open>null\<close> and \<^verbatim>\<open>''\<close> are falsy.\<close>

fun or_else :: "string option \<Rightarrow> string \<Rightarrow> string" where
  "or_else None fallback = fallback"
| "or_else (Some s) fallback = (if s = [] then fallback else s)"

text \<open>\<^verbatim>\<open>metadata || {}\<close>: every object is truthy.\<close>

fun metadata_or_empty :: "metadata_t option \<Rightarrow> metadata_t" where
  "metadata_or_empty None = []"
| "metadata_or_empty (Some m) = m"

definition addGeneralComment ::
  "firestore \<Rightarrow> nat \<Rightarrow> string \<Rightarrow> string \<Rightarrow> string \<Rightarrow> string \<Rightarrow> string \<Rightarrow> string \<Rightarrow>
   metadata_t option \<Rightarrow> error + (string \<times> firestore)" where
  "addGeneralComment fs now newId sid aid aname aemail text md =
     (let commentData =
        \<lparr>submissionId = sid, adminId = aid, adminName = aname, adminEmail = aemail,
         content = text, type = General, scores = None,
         metadata = Some (metadata_or_empty md), createdAt = now, updatedAt = None,
         isEdited = False, isDeleted = False\<rparr>
      in case addDoc fs sid newId commentData of
        Inl e \<Rightarrow> Inl (Error ''Failed to add comment'')
      | Inr r \<Rightarrow> Inr r)"

definition addScoringComment ::
  "firestore \<Rightarrow> nat \<Rightarrow> string \<Rightarrow> string \<Rightarrow> string \<Rightarrow> string \<Rightarrow> string \<Rightarrow> ScoringCommentData \<Rightarrow>
   string option \<Rightarrow> error + (string \<times> firestore)" where
  "addScoringComment fs now newId sid aid aname aemail sc text =
     (let commentData =
        \<lparr>submissionId = sid, adminId = aid, adminName = aname, adminEmail = aemail,
         content = or_else text ''Scoring evaluation completed'', type = Scoring,
         scores = Some sc, metadata = None, createdAt = now, updatedAt = None,
         isEdited = False, isDeleted = False\<rparr>
      in case addDoc fs sid newId commentData of
        Inl e \<Rightarrow> Inl (Error ''Failed to save scores and comment'')
      | Inr r \<Rightarrow> Inr r)"

definition getComments :: "firestore \<Rightarrow> string \<Rightarrow> error + ShortFilmComment list" where
  "getComments fs sid =
     (case getDocs fs sid (\<lambda>d. isDeleted d = False) None of
        Inl e \<Rightarrow> Inl (Error ''Failed to load comments'')
      | Inr snapshot \<Rightarrow> Inr (map toComment snapshot))"

definition getCommentsByType ::
  "firestore \<Rightarrow> string \<Rightarrow> comment_type \<Rightarrow> error + ShortFilmComment list" where
  "getCommentsByType fs sid ty =
     (case getDocs fs sid (\<lambda>d. type d = ty \<and> isDeleted d = False) None of
        Inl e \<Rightarrow> Inl (Error ''Failed to load comments'')
      | Inr snapshot \<Rightarrow> Inr (map toComment snapshot))"

definition updateComment ::
  "firestore \<Rightarrow> nat \<Rightarrow> string \<Rightarrow> string \<Rightarrow> string \<Rightarrow> error + firestore" where
  "updateComment fs now sid commentId text =
     (case updateDoc fs sid commentId
             (\<lambda>d. d\<lparr>content := text, updatedAt := Some now, isEdited := True\<rparr>) of
        Inl e \<Rightarrow> Inl (Error ''Failed to update comment'')
      | Inr fs' \<Rightarrow> Inr fs')"

definition deleteComment :: "firestore \<Rightarrow> nat \<Rightarrow> string \<Rightarrow> string \<Rightarrow> error + firestore" where
  "deleteComment fs now sid commentId =
     (case updateDoc fs sid commentId (\<lambda>d. d\<lparr>isDeleted := True, updatedAt := Some now\<rparr>) of
        Inl e \<Rightarrow> Inl (Error ''Failed to delete comment'')
      | Inr fs' \<Rightarrow> Inr fs')"

text \<open>\<^verbatim>\<open>getLatestScoreByAdmin\<close> catches every error and returns \<^verbatim>\<open>null\<close>.\<close>

definition getLatestScoreByAdmin :: "firestore \<Rightarrow> string \<Rightarrow> string \<Rightarrow> ShortFilmComment option" where
  "getLatestScoreByAdmin fs sid aid =
     (case getDocs fs sid (\<lambda>d. adminId d = aid \<and> type d = Scoring \<and> isDeleted d = False) (Some 1) of
        Inl e \<Rightarrow> None
      | Inr snapshot \<Rightarrow> (case snapshot of [] \<Rightarrow> None | doc # _ \<Rightarrow> Some (toComment doc)))"

section \<open>The copy of the service in AdminApplicationDetailPage.tsx\<close>

text \<open>
  In this copy \<^verbatim>\<open>addGeneralComment\<close>, \<^verbatim>\<open>getComments\<close>, \<^verbatim>\<open>deleteComment\<close> and
  \<^verbatim>\<open>getLatestScoreByAdmin\<close> differ from the functions above in their error messages only,
  and \<^verbatim>\<open>getScoringComments\<close> is \<^verbatim>\<open>getCommentsByType\<close> at the type \<^verbatim>\<open>'scoring'\<close>. The
  functions that differ in what they store follow.
\<close>

definition addScoringComment_P ::
  "firestore \<Rightarrow> nat \<Rightarrow> string \<Rightarrow> string \<Rightarrow> string \<Rightarrow> string \<Rightarrow> string \<Rightarrow> ScoringCommentData \<Rightarrow>
   string option \<Rightarrow> metadata_t option \<Rightarrow> error + (string \<times> firestore)" where
  "addScoringComment_P fs now newId sid aid aname aemail sc text md =
     (let commentData =
        \<lparr>submissionId = sid, adminId = aid, adminName = aname, adminEmail = aemail,
         content = or_else text [], type = Scoring,
         scores = Some sc, metadata = Some (metadata_or_empty md), createdAt = now,
         updatedAt = None, isEdited = False, isDeleted = False\<rparr>
      in case addDoc fs sid newId commentData of
        Inl e \<Rightarrow> Inl (Error ''Failed to add scoring comment'')
      | Inr r \<Rightarrow> Inr r)"

definition getScoringComments :: "firestore \<Rightarrow> string \<Rightarrow> error + ShortFilmComment list" where
  "getScoringComments fs sid =
     (case getDocs fs sid (\<lambda>d. type d = Scoring \<and> isDeleted d = False) None of
        Inl e \<Rightarrow> Inl (Error ''Failed to fetch scoring comments'')
      | Inr snapshot \<Rightarrow> Inr (map toComment snapshot))"

definition updateComment_P ::
  "firestore \<Rightarrow> nat \<Rightarrow> string \<Rightarrow> string \<Rightarrow> string \<Rightarrow> metadata_t option \<Rightarrow> error + firestore" where
  "updateComment_P fs now sid commentId text md =
     (case updateDoc fs sid commentId
             (\<lambda>d. d\<lparr>content := text, metadata := Some (metadata_or_empty md),
                     updatedAt := Some now, isEdited := True\<rparr>) of
        Inl e \<Rightarrow> Inl (Error ''Failed to update comment'')
      | Inr fs' \<Rightarrow> Inr fs')"

text \<open>A JavaScript condition on an optional string, and \<^verbatim>\<open>reason || null\<close>.\<close>

fun truthy :: "string option \<Rightarrow> bool" where
  "truthy None = False"
| "truthy (Some s) = (s \<noteq> [])"

fun or_null :: "string option \<Rightarrow> json" where
  "or_null None = JNull"
| "or_null (Some s) = (if s = [] then JNull else JString s)"

definition dquote :: string where
  "dquote = [CHR 0x22]"

definition addStatusChangeComment ::
  "firestore \<Rightarrow> nat \<Rightarrow> string \<Rightarrow> string \<Rightarrow> string \<Rightarrow> string \<Rightarrow> string \<Rightarrow> string \<Rightarrow> string \<Rightarrow>
   string option \<Rightarrow> error + (string \<times> firestore)" where
  "addStatusChangeComment fs now newId sid aid aname aemail oldStatus newStatus reason =
     (let text =
        (if truthy reason
         then ''Status changed from '' @ dquote @ oldStatus @ dquote @ '' to '' @ dquote @ newStatus
              @ dquote @ ''. Reason: '' @ or_else reason []
         else ''Status changed from '' @ dquote @ oldStatus @ dquote @ '' to '' @ dquote @ newStatus
              @ dquote @ ''.'');
          commentData =
        \<lparr>submissionId = sid, adminId = aid, adminName = aname, adminEmail = aemail,
         content = text, type = Status_change, scores = None,
         metadata = Some [(''oldStatus'', JString oldStatus), (''newStatus'', JString newStatus),
                          (''reason'', or_null reason)],
         createdAt = now, updatedAt = None, isEdited = False, isDeleted = False\<rparr>
      in case addDoc fs sid newId commentData of
        Inl e \<Rightarrow> Inl (Error ''Failed to add status change comment'')
      | Inr r \<Rightarrow> Inr r)"

definition addFlagComment ::
  "firestore \<Rightarrow> nat \<Rightarrow> string \<Rightarrow> string \<Rightarrow> string \<Rightarrow> string \<Rightarrow> string \<Rightarrow> bool \<Rightarrow>
   string option \<Rightarrow> error + (string \<times> firestore)" where
  "addFlagComment fs now newId sid aid aname aemail flagged reason =
     (let text =
        (if flagged
         then ''Application flagged. '' @ (if truthy reason then ''Reason: '' @ or_else reason [] else [])
         else ''Application unflagged.'');
          commentData =
        \<lparr>submissionId = sid, adminId = aid, adminName = aname, adminEmail = aemail,
         content = text, type = Flag, scores = None,
         metadata = Some [(''flagged'', JBool flagged), (''reason'', or_null reason)],
         createdAt = now, updatedAt = None, isEdited = False, isDeleted = False\<rparr>
      in case addDoc fs sid newId commentData of
        Inl e \<Rightarrow> Inl (Error ''Failed to add flag comment'')
      | Inr r \<Rightarrow> Inr r)"

section \<open>Subscriptions\<close>

text \<open>
  \<^verbatim>\<open>subscribeToComments\<close> hands \<^verbatim>\<open>onSnapshot\<close> a query and two handlers: one for a new
  result of the query, one for an error of the stream. The caller's callback changes the
  caller's state \<open>'u\<close>. \<open>onSnapshot_fire\<close> is one delivery of the SDK to the handlers.
\<close>

record 'u listener =
  query_where :: "commentData \<Rightarrow> bool"
  on_next :: "collection \<Rightarrow> 'u \<Rightarrow> 'u"
  on_error :: "'u \<Rightarrow> 'u"

definition subscribeToComments :: "(ShortFilmComment list \<Rightarrow> 'u \<Rightarrow> 'u) \<Rightarrow> 'u listener" where
  "subscribeToComments callback =
     \<lparr>query_where = (\<lambda>d. isDeleted d = False),
      on_next = (\<lambda>snapshot. callback (map toComment snapshot)),
      on_error = callback []\<rparr>"

text \<open>
  The error handler of the copy only writes to the console. (The copy also catches an error
  of the set-up and then returns an empty \<^verbatim>\<open>unsubscribe\<close>; unsubscribing is not modelled.)
\<close>

definition subscribeToComments_P :: "(ShortFilmComment list \<Rightarrow> 'u \<Rightarrow> 'u) \<Rightarrow> 'u listener" where
  "subscribeToComments_P onCommentsUpdate =
     \<lparr>query_where = (\<lambda>d. isDeleted d = False),
      on_next = (\<lambda>snapshot. onCommentsUpdate (map toComment snapshot)),
      on_error = (\<lambda>u. u)\<rparr>"

definition onSnapshot_fire :: "firestore \<Rightarrow> string \<Rightarrow> 'u listener \<Rightarrow> 'u \<Rightarrow> 'u" where
  "onSnapshot_fire fs sid l u =
     (case getDocs fs sid (query_where l) None of
        Inl e \<Rightarrow> on_error l u
      | Inr snapshot \<Rightarrow> on_next l snapshot u)"

section \<open>The score-saving path of the detail page\<close>

text \<open>The signed-in user, as \<^verbatim>\<open>handleSaveScore\<close> reads it.\<close>

record auth_user =
  uid :: string
  displayName :: "string option"
  email :: "string option"

text \<open>
  Modelled from the spec: \<^verbatim>\<open>AdminApplicationData\<close> of \<^verbatim>\<open>types/admin.types\<close> is not among
  the sources; of the application only the \<^verbatim>\<open>scores\<close> array is kept.
\<close>

record application =
  app_scores :: "ScoringCriteria list"

datatype notification = ShowSuccess | ShowError

text \<open>The state of the page that the handlers and the subscription read and write.\<close>

record page =
  user :: "auth_user option"
  application :: "application option"
  allScores :: "ScoringCriteria list"
  comments :: "ShortFilmComment list"
  loadingComments :: bool
  isSubmittingScore :: bool
  notifications :: "notification list"

text \<open>The callback both pages pass to \<^verbatim>\<open>subscribeToComments\<close>.\<close>

definition comments_callback :: "ShortFilmComment list \<Rightarrow> page \<Rightarrow> page" where
  "comments_callback newComments pg = pg\<lparr>comments := newComments, loadingComments := False\<rparr>"

text \<open>\<^verbatim>\<open>user.displayName || user.email || 'Admin'\<close>\<close>

definition adminNameOf :: "auth_user \<Rightarrow> string" where
  "adminNameOf u = or_else (displayName u) (or_else (email u) ''Admin'')"

text \<open>
  The sum that \<^verbatim>\<open>unnamed/part_000\<close> passes as \<^verbatim>\<open>totalScore\<close> (line 289), and the
  filter-then-push step on the submission's \<^verbatim>\<open>scores\<close> array (lines 259 to 269; lines 237
  and 238 of the other page).
\<close>

definition recomputeTotal :: "'a ScoringCommentData_scheme \<Rightarrow> int" where
  "recomputeTotal s = technical s + story s + creativity s + chiangmai s + humanEffort s"

definition replaceAuthorScore ::
  "ScoringCriteria list \<Rightarrow> string \<Rightarrow> ScoringCriteria \<Rightarrow> ScoringCriteria list" where
  "replaceAuthorScore scoreList authorId newScore =
     filter (\<lambda>score. sc_adminId score \<noteq> authorId) scoreList @ [newScore]"

text \<open>The server puts the time of the write in place of a sentinel.\<close>

definition resolve_scoredAt :: "nat \<Rightarrow> ScoringCriteria \<Rightarrow> ScoringCriteria" where
  "resolve_scoredAt now s =
     s\<lparr>sc_scoredAt := (case sc_scoredAt s of Some ServerTimestamp \<Rightarrow> Some (Date now) | t \<Rightarrow> t)\<rparr>"

text \<open>\<^verbatim>\<open>score.scoredAt instanceof Date ? score.scoredAt : new Date()\<close>\<close>

definition local_scoredAt :: "nat \<Rightarrow> ScoringCriteria \<Rightarrow> ScoringCriteria" where
  "local_scoredAt localNow s =
     s\<lparr>sc_scoredAt := (case sc_scoredAt s of Some (Date t) \<Rightarrow> Some (Date t) | _ \<Rightarrow> Some (Date localNow))\<rparr>"

type_synonym addScoringComment_t =
  "firestore \<Rightarrow> nat \<Rightarrow> string \<Rightarrow> string \<Rightarrow> string \<Rightarrow> string \<Rightarrow> string \<Rightarrow> ScoringCommentData \<Rightarrow>
   string option \<Rightarrow> error + (string \<times> firestore)"

text \<open>
  \<^verbatim>\<open>handleSaveScore\<close> of \<^verbatim>\<open>unnamed/part_000\<close>. The service it calls is the argument
  \<open>addSC\<close>. The new element of the array holds a \<^verbatim>\<open>serverTimestamp()\<close> sentinel; whether
  the SDK accepts a sentinel inside an array is the argument \<open>sentinel_ok\<close> (a refused
  write throws, like every other failure of \<^verbatim>\<open>updateDoc\<close>). \<open>localNow\<close> is the
  \<^verbatim>\<open>new Date()\<close> of the browser.
\<close>

definition handleSaveScore ::
  "addScoringComment_t \<Rightarrow> bool \<Rightarrow> string \<Rightarrow> nat \<Rightarrow> nat \<Rightarrow> string \<Rightarrow> ScoringCriteria \<Rightarrow>
   page \<times> firestore \<Rightarrow> page \<times> firestore" where
  "handleSaveScore addSC sentinel_ok applicationId now localNow newId sc st = (case st of (pg, fs) \<Rightarrow>
     (case (user pg, application pg) of
        (Some u, Some app) \<Rightarrow>
          (let newScore = sc\<lparr>sc_adminId := uid u, sc_adminName := adminNameOf u,
                             sc_scoredAt := Some ServerTimestamp\<rparr>;
               updatedScores = replaceAuthorScore (app_scores app) (uid u) newScore;
               failed = pg\<lparr>notifications := notifications pg @ [ShowError],
                           isSubmittingScore := False\<rparr>
           in case (if sentinel_ok
                    then updateSubmission fs applicationId
                           (\<lambda>s. s\<lparr>sub_scores := map (resolve_scoredAt now) updatedScores,
                                   lastModified := Some now, lastReviewedAt := Some now\<rparr>)
                    else Inl Invalid_argument) of
                Inl e \<Rightarrow> (failed, fs)
              | Inr fs1 \<Rightarrow>
                  (case addSC fs1 now newId applicationId (uid u) (adminNameOf u) (or_else (email u) [])
                          \<lparr>technical = technical sc, story = story sc, creativity = creativity sc,
                           chiangmai = chiangmai sc, humanEffort = humanEffort sc,
                           totalScore = recomputeTotal sc\<rparr>
                          (sc_comments sc) of
                     Inl e \<Rightarrow> (failed, fs1)
                   | Inr (i, fs2) \<Rightarrow>
                       (pg\<lparr>application :=
                             Some (app\<lparr>app_scores := map (local_scoredAt localNow) updatedScores\<rparr>),
                           notifications := notifications pg @ [ShowSuccess],
                           isSubmittingScore := False\<rparr>, fs2)))
      | _ \<Rightarrow> st))"

text \<open>
  \<^verbatim>\<open>handleSaveScore\<close> of \<^verbatim>\<open>src/components/pages/AdminApplicationDetailPage.tsx\<close>: it
  pushes \<^verbatim>\<open>scores\<close> as it is, updates the local state before it calls the service, and
  passes \<^verbatim>\<open>scores.totalScore\<close> on.
\<close>

definition handleSaveScore_P ::
  "addScoringComment_t \<Rightarrow> string \<Rightarrow> nat \<Rightarrow> string \<Rightarrow> ScoringCriteria \<Rightarrow>
   page \<times> firestore \<Rightarrow> page \<times> firestore" where
  "handleSaveScore_P addSC applicationId now newId sc st = (case st of (pg, fs) \<Rightarrow>
     (case (application pg, user pg) of
        (Some app, Some u) \<Rightarrow>
          (let updatedScores = replaceAuthorScore (app_scores app) (uid u) sc
           in case updateSubmission fs applicationId
                     (\<lambda>s. s\<lparr>sub_scores := updatedScores, lastModified := Some now,
                             lastReviewedAt := Some now\<rparr>) of
                Inl e \<Rightarrow>
                  (pg\<lparr>notifications := notifications pg @ [ShowError], isSubmittingScore := False\<rparr>, fs)
              | Inr fs1 \<Rightarrow>
                  (let pg1 = pg\<lparr>allScores := updatedScores,
                                 application := Some (app\<lparr>app_scores := updatedScores\<rparr>)\<rparr>
                   in case addSC fs1 now newId applicationId (uid u) (adminNameOf u) (or_else (email u) [])
                             \<lparr>technical = technical sc, story = story sc, creativity = creativity sc,
                              chiangmai = chiangmai sc, humanEffort = humanEffort sc,
                              totalScore = totalScore sc\<rparr>
                             (sc_comments sc) of
                        Inl e \<Rightarrow>
                          (pg1\<lparr>notifications := notifications pg1 @ [ShowError],
                               isSubmittingScore := False\<rparr>, fs1)
                      | Inr (i, fs2) \<Rightarrow>
                          (pg1\<lparr>notifications := notifications pg1 @ [ShowSuccess],
                               isSubmittingScore := False\<rparr>, fs2)))
      | _ \<Rightarrow> st))"

section \<open>Sequences of service calls\<close>

text \<open>
  One call of the service on the comment log of a submission, or a change of the
  connection. A call that throws leaves the store as it was.
\<close>

datatype call =
    AddGeneralComment nat string string string string string string "metadata_t option"
  | AddScoringComment nat string string string string string ScoringCommentData "string option"
  | AddScoringComment_P nat string string string string string ScoringCommentData "string option"
      "metadata_t option"
  | AddStatusChangeComment nat string string string string string string string "string option"
  | AddFlagComment nat string string string string string bool "string option"
  | UpdateComment nat string string string
  | UpdateComment_P nat string string string "metadata_t option"
  | DeleteComment nat string string
  | SetReachable bool

fun keep_store :: "firestore \<Rightarrow> error + (string \<times> firestore) \<Rightarrow> firestore" where
  "keep_store fs (Inl e) = fs"
| "keep_store fs (Inr r) = snd r"

fun keep_store' :: "firestore \<Rightarrow> error + firestore \<Rightarrow> firestore" where
  "keep_store' fs (Inl e) = fs"
| "keep_store' fs (Inr fs') = fs'"

fun exec :: "call \<Rightarrow> firestore \<Rightarrow> firestore" where
  "exec (AddGeneralComment now newId sid aid aname aemail text md) fs =
     keep_store fs (addGeneralComment fs now newId sid aid aname aemail text md)"
| "exec (AddScoringComment now newId sid aid aname aemail sc text) fs =
     keep_store fs (addScoringComment fs now newId sid aid aname aemail sc text)"
| "exec (AddScoringComment_P now newId sid aid aname aemail sc text md) fs =
     keep_store fs (addScoringComment_P fs now newId sid aid aname aemail sc text md)"
| "exec (AddStatusChangeComment now newId sid aid aname aemail old new reason) fs =
     keep_store fs (addStatusChangeComment fs now newId sid aid aname aemail old new reason)"
| "exec (AddFlagComment now newId sid aid aname aemail flagged reason) fs =
     keep_store fs (addFlagComment fs now newId sid aid aname aemail flagged reason)"
| "exec (UpdateComment now sid commentId text) fs =
     keep_store' fs (updateComment fs now sid commentId text)"
| "exec (UpdateComment_P now sid commentId text md) fs =
     keep_store' fs (updateComment_P fs now sid commentId text md)"
| "exec (DeleteComment now sid commentId) fs =
     keep_store' fs (deleteComment fs now sid commentId)"
| "exec (SetReachable b) fs = fs\<lparr>reachable := b\<rparr>"

fun run :: "call list \<Rightarrow> firestore \<Rightarrow> firestore" where
  "run [] fs = fs"
| "run (c # cs) fs = run cs (exec c fs)"

text \<open>What a call is, for the statements about histories.\<close>

fun is_edit_of :: "string \<Rightarrow> string \<Rightarrow> call \<Rightarrow> bool" where
  "is_edit_of sid i (UpdateComment now sid' i' text) = (sid' = sid \<and> i' = i)"
| "is_edit_of sid i (UpdateComment_P now sid' i' text md) = (sid' = sid \<and> i' = i)"
| "is_edit_of sid i _ = False"

fun is_delete_of :: "string \<Rightarrow> string \<Rightarrow> call \<Rightarrow> bool" where
  "is_delete_of sid i (DeleteComment now sid' i') = (sid' = sid \<and> i' = i)"
| "is_delete_of sid i _ = False"

fun adds_id :: "string \<Rightarrow> string \<Rightarrow> call \<Rightarrow> bool" where
  "adds_id sid i (AddGeneralComment now newId sid' aid aname aemail text md) = (sid' = sid \<and> newId = i)"
| "adds_id sid i (AddScoringComment now newId sid' aid aname aemail sc text) = (sid' = sid \<and> newId = i)"
| "adds_id sid i (AddScoringComment_P now newId sid' aid aname aemail sc text md) = (sid' = sid \<and> newId = i)"
| "adds_id sid i (AddStatusChangeComment now newId sid' aid aname aemail old new reason) = (sid' = sid \<and> newId = i)"
| "adds_id sid i (AddFlagComment now newId sid' aid aname aemail flagged reason) = (sid' = sid \<and> newId = i)"
| "adds_id sid i _ = False"

section \<open>Predicates and example data of the statements\<close>

text \<open>The server time of a call.\<close>

fun time_of :: "call \<Rightarrow> nat" where
  "time_of (AddGeneralComment now newId sid aid aname aemail text md) = now"
| "time_of (AddScoringComment now newId sid aid aname aemail sc text) = now"
| "time_of (AddScoringComment_P now newId sid aid aname aemail sc text md) = now"
| "time_of (AddStatusChangeComment now newId sid aid aname aemail old new reason) = now"
| "time_of (AddFlagComment now newId sid aid aname aemail flagged reason) = now"
| "time_of (UpdateComment now sid commentId text) = now"
| "time_of (UpdateComment_P now sid commentId text md) = now"
| "time_of (DeleteComment now sid commentId) = now"
| "time_of (SetReachable b) = 0"

text \<open>A scoring event of the admin \<open>aid\<close> that is not deleted.\<close>

definition is_live_score_by :: "string \<Rightarrow> commentData \<Rightarrow> bool" where
  "is_live_score_by aid d = (adminId d = aid \<and> type d = Scoring \<and> \<not> isDeleted d)"

text \<open>Newest first.\<close>

definition newest_first :: "ShortFilmComment list \<Rightarrow> bool" where
  "newest_first cs = sorted_wrt (\<lambda>x y. createdAt y \<le> createdAt x) cs"

definition ex_scores :: ScoringCommentData where
  "ex_scores = \<lparr>technical = 8, story = 7, creativity = 9, chiangmai = 6, humanEffort = 10,
                totalScore = 40\<rparr>"

definition score_event :: "string \<Rightarrow> nat \<Rightarrow> commentData" where
  "score_event aid t =
     \<lparr>submissionId = ''s1'', adminId = aid, adminName = aid, adminEmail = [],
      content = ''Scoring evaluation completed'', type = Scoring, scores = Some ex_scores,
      metadata = None, createdAt = t, updatedAt = None, isEdited = False, isDeleted = False\<rparr>"

definition general_event :: "string \<Rightarrow> nat \<Rightarrow> commentData" where
  "general_event aid t =
     \<lparr>submissionId = ''s1'', adminId = aid, adminName = aid, adminEmail = [],
      content = ''first cut'', type = General, scores = None,
      metadata = Some [(''k'', JString ''v'')], createdAt = t, updatedAt = None,
      isEdited = False, isDeleted = False\<rparr>"

definition store_of :: "collection \<Rightarrow> firestore" where
  "store_of c = \<lparr>reachable = True, ShortFilmComments = (\<lambda>_. [])(''s1'' := c),
                 submissions = (\<lambda>_. None)\<rparr>"

text \<open>The log \<open>[scoring@1(A), scoring@2(A), scoring@3(B)]\<close>.\<close>

definition ex_log :: firestore where
  "ex_log = store_of [(''e1'', score_event ''A'' 1), (''e2'', score_event ''A'' 2),
                      (''e3'', score_event ''B'' 3)]"

text \<open>The fields that no edit may touch.\<close>

definition same_identity :: "commentData \<Rightarrow> commentData \<Rightarrow> bool" where
  "same_identity d e =
     (submissionId e = submissionId d \<and> adminId e = adminId d \<and> adminName e = adminName d \<and>
      adminEmail e = adminEmail d \<and> type e = type d \<and> scores e = scores d \<and>
      createdAt e = createdAt d \<and> isDeleted e = isDeleted d)"

definition score_of :: "string \<Rightarrow> int \<Rightarrow> ScoringCriteria" where
  "score_of aid n =
     \<lparr>technical = n, story = 7, creativity = 9, chiangmai = 6, humanEffort = 10, totalScore = n + 32,
      sc_adminId = aid, sc_adminName = aid, sc_scoredAt = Some (Date 1), sc_comments = None\<rparr>"

text \<open>A payload out of range whose total is not the sum, and a log with one deleted event.\<close>

definition bad_scores :: ScoringCommentData where
  "bad_scores = \<lparr>technical = 11, story = - 3, creativity = 9, chiangmai = 6, humanEffort = 10,
                 totalScore = 99\<rparr>"

definition deleted_event :: commentData where
  "deleted_event = (general_event ''A'' 1)\<lparr>isDeleted := True, updatedAt := Some 5\<rparr>"

text \<open>
  A page of the admin A with the application loaded, over a store that holds the
  submission \<open>s1\<close> with no score and no comment; and scores of the admin A whose
  \<^verbatim>\<open>totalScore\<close> is not their sum.
\<close>

definition ex_page :: page where
  "ex_page = \<lparr>user = Some \<lparr>uid = ''A'', displayName = Some ''Ann'', email = None\<rparr>,
              application = Some \<lparr>app_scores = []\<rparr>, allScores = [], comments = [],
              loadingComments = True, isSubmittingScore = False, notifications = []\<rparr>"

definition ex_store :: firestore where
  "ex_store = \<lparr>reachable = True, ShortFilmComments = (\<lambda>_. []),
               submissions = (\<lambda>_. None)(''s1'' := Some \<lparr>sub_scores = [], lastModified = None,
                                                        lastReviewedAt = None\<rparr>)\<rparr>"

definition client_scores :: ScoringCriteria where
  "client_scores = (score_of ''A'' 8)\<lparr>totalScore := 0\<rparr>"

text \<open>A log with a general comment, a deleted comment and a scoring event.\<close>

definition ex_mixed :: firestore where
  "ex_mixed = store_of [(''e1'', general_event ''A'' 1), (''e0'', deleted_event),
                        (''e2'', score_event ''B'' 2)]"

text \<open>
  The comment \<open>r\<close> is the stored document \<open>p\<close> as a reader must see it: the id of the
  document and every field of its data.
\<close>

definition reads_as :: "string \<times> commentData \<Rightarrow> ShortFilmComment \<Rightarrow> bool" where
  "reads_as p r =
     (doc_id r = fst p \<and> submissionId r = submissionId (snd p) \<and> adminId r = adminId (snd p) \<and>
      adminName r = adminName (snd p) \<and> adminEmail r = adminEmail (snd p) \<and>
      content r = content (snd p) \<and> type r = type (snd p) \<and> scores r = scores (snd p) \<and>
      metadata r = metadata (snd p) \<and> createdAt r = createdAt (snd p) \<and>
      updatedAt r = updatedAt (snd p) \<and> isEdited r = isEdited (snd p) \<and>
      isDeleted r = isDeleted (snd p))"

text \<open>
  The document \<open>d\<close> is the event that the append \<open>c\<close> asks for: its submission, author,
  kind, score payload and server time (and the text of a general comment).
\<close>

fun appended_by :: "call \<Rightarrow> commentData \<Rightarrow> bool" where
  "appended_by (AddGeneralComment now newId sid aid aname aemail text md) d =
     (submissionId d = sid \<and> adminId d = aid \<and> adminName d = aname \<and> adminEmail d = aemail \<and>
      type d = General \<and> scores d = None \<and> createdAt d = now \<and> content d = text)"
| "appended_by (AddScoringComment now newId sid aid aname aemail sc text) d =
     (submissionId d = sid \<and> adminId d = aid \<and> adminName d = aname \<and> adminEmail d = aemail \<and>
      type d = Scoring \<and> scores d = Some sc \<and> createdAt d = now)"
| "appended_by (AddScoringComment_P now newId sid aid aname aemail sc text md) d =
     (submissionId d = sid \<and> adminId d = aid \<and> adminName d = aname \<and> adminEmail d = aemail \<and>
      type d = Scoring \<and> scores d = Some sc \<and> createdAt d = now)"
| "appended_by (AddStatusChangeComment now newId sid aid aname aemail old new reason) d =
     (submissionId d = sid \<and> adminId d = aid \<and> adminName d = aname \<and> adminEmail d = aemail \<and>
      type d = Status_change \<and> scores d = None \<and> createdAt d = now)"
| "appended_by (AddFlagComment now newId sid aid aname aemail flagged reason) d =
     (submissionId d = sid \<and> adminId d = aid \<and> adminName d = aname \<and> adminEmail d = aemail \<and>
      type d = Flag \<and> scores d = None \<and> createdAt d = now)"
| "appended_by _ d = False"

text \<open>The event that \<^verbatim>\<open>addFlagComment\<close> stores for a flag without a reason.\<close>

definition flag_event :: "string \<Rightarrow> nat \<Rightarrow> commentData" where
  "flag_event aid t =
     \<lparr>submissionId = ''s1'', adminId = aid, adminName = ''Ann'', adminEmail = ''ann@x'',
      content = ''Application flagged. '', type = Flag, scores = None,
      metadata = Some [(''flagged'', JBool True), (''reason'', JNull)], createdAt = t,
      updatedAt = None, isEdited = False, isDeleted = False\<rparr>"

section \<open>Queries\<close>

lemma key_le_createdAt:
  "(createdAt (snd x), fst x) \<le> (createdAt (snd y), fst y) \<Longrightarrow> createdAt (snd x) \<le> createdAt (snd y)"
  by (auto simp: less_eq_prod_def)

lemma set_orderByCreatedAtDesc [simp]: "set (orderByCreatedAtDesc c) = set c"
  by (simp add: orderByCreatedAtDesc_def)

lemma length_orderByCreatedAtDesc [simp]: "length (orderByCreatedAtDesc c) = length c"
  by (simp add: orderByCreatedAtDesc_def)

lemma sorted_orderByCreatedAtDesc:
  "sorted_wrt (\<lambda>x y. createdAt (snd y) \<le> createdAt (snd x)) (orderByCreatedAtDesc c)"
proof -
  have "sorted (map (\<lambda>(i, d). (createdAt d, i)) (sort_key (\<lambda>(i, d). (createdAt d, i)) c))"
    by (rule sorted_sort_key)
  then have "sorted_wrt (\<lambda>x y. (createdAt (snd x), fst x) \<le> (createdAt (snd y), fst y))
               (sort_key (\<lambda>(i, d). (createdAt d, i)) c)"
    by (simp add: sorted_map case_prod_beta)
  then have "sorted_wrt (\<lambda>x y. createdAt (snd x) \<le> createdAt (snd y))
               (sort_key (\<lambda>(i, d). (createdAt d, i)) c)"
    by (rule sorted_wrt_mono_rel [rotated]) (rule key_le_createdAt)
  then show ?thesis
    by (simp add: orderByCreatedAtDesc_def sorted_wrt_rev)
qed

lemma in_runQuery_None:
  "p \<in> set (runQuery wh None c) \<longleftrightarrow> p \<in> set c \<and> wh (snd p)"
  by (auto simp: runQuery_def)

lemma sorted_runQuery:
  "sorted_wrt (\<lambda>x y. createdAt (snd y) \<le> createdAt (snd x)) (runQuery wh lim c)"
proof -
  have s: "sorted_wrt (\<lambda>x y. createdAt (snd y) \<le> createdAt (snd x))
             (orderByCreatedAtDesc (filter (\<lambda>(i, d). wh d) c))"
    by (rule sorted_orderByCreatedAtDesc)
  show ?thesis
  proof (cases lim)
    case None
    then show ?thesis using s by (simp add: runQuery_def)
  next
    case (Some n)
    then show ?thesis using s by (simp add: runQuery_def)
  qed
qed

lemma runQuery_limit1:
  "runQuery wh (Some (Suc 0)) c = (case runQuery wh None c of [] \<Rightarrow> [] | p # _ \<Rightarrow> [p])"
  by (simp add: runQuery_def split: list.splits)

section \<open>The latest score of an admin\<close>

lemma case_runQuery_limit1:
  "(case runQuery wh (Some 1) c of [] \<Rightarrow> a | p # _ \<Rightarrow> f p) =
   (case runQuery wh None c of [] \<Rightarrow> a | p # _ \<Rightarrow> f p)"
  by (cases "runQuery wh None c") (simp_all add: runQuery_limit1)

lemma live_score_where:
  "(\<lambda>d. adminId d = aid \<and> type d = Scoring \<and> isDeleted d = False) = is_live_score_by aid"
  by (auto simp: is_live_score_by_def fun_eq_iff)

lemma getLatestScoreByAdmin_unfold:
  "reachable fs \<Longrightarrow> getLatestScoreByAdmin fs sid aid =
     (case runQuery (is_live_score_by aid) None (ShortFilmComments fs sid) of
        [] \<Rightarrow> None | p # _ \<Rightarrow> Some (toComment p))"
  unfolding getLatestScoreByAdmin_def getDocs_def live_score_where
  by (simp only: if_not_P not_not sum.case case_runQuery_limit1 if_True)

lemma getLatestScoreByAdmin_max:
  assumes "reachable fs"
  shows "case getLatestScoreByAdmin fs sid aid of
           None \<Rightarrow> \<forall>p\<in>set (ShortFilmComments fs sid). \<not> is_live_score_by aid (snd p)
         | Some r \<Rightarrow> \<exists>p\<in>set (ShortFilmComments fs sid).
             r = toComment p \<and> is_live_score_by aid (snd p) \<and>
             (\<forall>q\<in>set (ShortFilmComments fs sid).
                is_live_score_by aid (snd q) \<longrightarrow> createdAt (snd q) \<le> createdAt (snd p))"
proof -
  let ?c = "ShortFilmComments fs sid"
  let ?r = "runQuery (is_live_score_by aid) None ?c"
  have srt: "sorted_wrt (\<lambda>x y. createdAt (snd y) \<le> createdAt (snd x)) ?r"
    by (rule sorted_runQuery)
  show ?thesis
  proof (cases ?r)
    case Nil
    have "\<not> is_live_score_by aid (snd p)" if "p \<in> set ?c" for p
    proof
      assume "is_live_score_by aid (snd p)"
      with that have "p \<in> set ?r" by (simp add: in_runQuery_None)
      with Nil show False by simp
    qed
    moreover have "getLatestScoreByAdmin fs sid aid = None"
      using Nil assms by (simp add: getLatestScoreByAdmin_unfold)
    ultimately show ?thesis by simp
  next
    case (Cons p ps)
    then have "p \<in> set ?r" by simp
    then have p1: "p \<in> set ?c" and p2: "is_live_score_by aid (snd p)"
      by (simp_all add: in_runQuery_None)
    have p3: "createdAt (snd q) \<le> createdAt (snd p)"
      if "q \<in> set ?c" and "is_live_score_by aid (snd q)" for q
    proof -
      from that have "q \<in> set ?r" by (simp add: in_runQuery_None)
      then have "q \<in> set (p # ps)" using Cons by simp
      moreover have "sorted_wrt (\<lambda>x y. createdAt (snd y) \<le> createdAt (snd x)) (p # ps)"
        using srt Cons by simp
      ultimately show ?thesis by auto
    qed
    have "getLatestScoreByAdmin fs sid aid = Some (toComment p)"
      using Cons assms by (simp add: getLatestScoreByAdmin_unfold)
    then show ?thesis using p1 p2 p3 by auto
  qed
qed

lemma getLatestScoreByAdmin_three_events:
  assumes "t1 < t2" and "t2 < t3" and "a \<noteq> b"
  shows "getLatestScoreByAdmin
           (store_of [(i1, score_event a t1), (i2, score_event a t2), (i3, score_event b t3)]) ''s1'' a
           = Some (toComment (i2, score_event a t2)) \<and>
         getLatestScoreByAdmin
           (store_of [(i1, score_event a t1), (i2, score_event a t2), (i3, score_event b t3)]) ''s1'' b
           = Some (toComment (i3, score_event b t3)) \<and>
         (c \<noteq> a \<and> c \<noteq> b \<longrightarrow>
          getLatestScoreByAdmin
           (store_of [(i1, score_event a t1), (i2, score_event a t2), (i3, score_event b t3)]) ''s1'' c
           = None)"
  using assms
  by (simp add: store_of_def getLatestScoreByAdmin_def getDocs_def runQuery_def
      orderByCreatedAtDesc_def score_event_def less_eq_prod_def less_prod_def)

lemma reads_as_toComment: "reads_as p (toComment p)"
  by (cases p) (simp add: reads_as_def toComment_def)

lemma list_all2_reads_as: "list_all2 reads_as docs (map toComment docs)"
  by (simp add: list_all2_map2 list_all2_same reads_as_toComment)

text \<open>
  C2, as the claim states it, fails: \<^verbatim>\<open>getLatestScoreByAdmin\<close> catches every error of the
  query and returns \<^verbatim>\<open>null\<close>, so for a log that holds a live scoring event of the admin A
  it returns nothing when the query throws.
\<close>

theorem getLatestScoreByAdmin_swallows_error_counterexample:
  "(''e2'', score_event ''A'' 2) \<in> set (ShortFilmComments (ex_log\<lparr>reachable := False\<rparr>) ''s1'') \<and>
   is_live_score_by ''A'' (score_event ''A'' 2) \<and>
   getLatestScoreByAdmin (ex_log\<lparr>reachable := False\<rparr>) ''s1'' ''A'' = None"
  by (simp add: ex_log_def store_of_def getLatestScoreByAdmin_def getDocs_def
      is_live_score_by_def score_event_def)

text \<open>
  C2, amended. When the query succeeds, \<^verbatim>\<open>getLatestScoreByAdmin\<close> returns \<^verbatim>\<open>null\<close> exactly
  when the log of the submission holds no scoring event of the admin that is not deleted, and
  otherwise returns such an event, with the id and every field of the stored document, whose
  \<^verbatim>\<open>createdAt\<close> is maximal among them. When the query throws, it returns \<^verbatim>\<open>null\<close>. In
  particular, on the log \<open>[scoring@t1(a), scoring@t2(a), scoring@t3(b)]\<close> with
  \<open>t1 < t2 < t3\<close> it returns the event at \<open>t2\<close> for \<open>a\<close>, the event at \<open>t3\<close> for \<open>b\<close>, and
  nothing for a third admin.
\<close>

theorem getLatestScoreByAdmin_latest:
  "(reachable fs \<longrightarrow>
      (case getLatestScoreByAdmin fs sid aid of
         None \<Rightarrow> \<forall>p\<in>set (ShortFilmComments fs sid). \<not> is_live_score_by aid (snd p)
       | Some r \<Rightarrow> \<exists>p\<in>set (ShortFilmComments fs sid).
           reads_as p r \<and> is_live_score_by aid (snd p) \<and>
           (\<forall>q\<in>set (ShortFilmComments fs sid).
              is_live_score_by aid (snd q) \<longrightarrow> createdAt (snd q) \<le> createdAt (snd p)))) \<and>
   (\<not> reachable fs \<longrightarrow> getLatestScoreByAdmin fs sid aid = None) \<and>
   (t1 < t2 \<and> t2 < t3 \<and> a \<noteq> b \<longrightarrow>
      (\<exists>r. getLatestScoreByAdmin
             (store_of [(i1, score_event a t1), (i2, score_event a t2), (i3, score_event b t3)]) ''s1'' a
             = Some r \<and> reads_as (i2, score_event a t2) r) \<and>
      (\<exists>r. getLatestScoreByAdmin
             (store_of [(i1, score_event a t1), (i2, score_event a t2), (i3, score_event b t3)]) ''s1'' b
             = Some r \<and> reads_as (i3, score_event b t3) r) \<and>
      (c \<noteq> a \<and> c \<noteq> b \<longrightarrow>
       getLatestScoreByAdmin
        (store_of [(i1, score_event a t1), (i2, score_event a t2), (i3, score_event b t3)]) ''s1'' c
        = None))"
proof (intro conjI impI)
  assume "reachable fs"
  from getLatestScoreByAdmin_max [OF this, of sid aid]
  show "case getLatestScoreByAdmin fs sid aid of
         None \<Rightarrow> \<forall>p\<in>set (ShortFilmComments fs sid). \<not> is_live_score_by aid (snd p)
       | Some r \<Rightarrow> \<exists>p\<in>set (ShortFilmComments fs sid).
           reads_as p r \<and> is_live_score_by aid (snd p) \<and>
           (\<forall>q\<in>set (ShortFilmComments fs sid).
              is_live_score_by aid (snd q) \<longrightarrow> createdAt (snd q) \<le> createdAt (snd p))"
    by (cases "getLatestScoreByAdmin fs sid aid") (auto intro: reads_as_toComment)
next
  assume "\<not> reachable fs"
  then show "getLatestScoreByAdmin fs sid aid = None"
    by (simp add: getLatestScoreByAdmin_def getDocs_def)
next
  assume a: "t1 < t2 \<and> t2 < t3 \<and> a \<noteq> b"
  then have t: "t1 < t2" "t2 < t3" "a \<noteq> b" by simp_all
  note e = getLatestScoreByAdmin_three_events [OF t, of i1 i2 i3 c]
  from e show "\<exists>r. getLatestScoreByAdmin
             (store_of [(i1, score_event a t1), (i2, score_event a t2), (i3, score_event b t3)]) ''s1'' a
             = Some r \<and> reads_as (i2, score_event a t2) r"
    using reads_as_toComment by blast
  from e show "\<exists>r. getLatestScoreByAdmin
             (store_of [(i1, score_event a t1), (i2, score_event a t2), (i3, score_event b t3)]) ''s1'' b
             = Some r \<and> reads_as (i3, score_event b t3) r"
    using reads_as_toComment by blast
  assume "c \<noteq> a \<and> c \<noteq> b"
  with e show "getLatestScoreByAdmin
        (store_of [(i1, score_event a t1), (i2, score_event a t2), (i3, score_event b t3)]) ''s1'' c
        = None"
    by blast
qed

theorem getLatestScoreByAdmin_latest_witness:
  "reachable ex_log \<and> \<not> reachable (ex_log\<lparr>reachable := False\<rparr>) \<and>
   (1::nat) < 2 \<and> (2::nat) < 3 \<and> ''A'' \<noteq> ''B'' \<and> ''C'' \<noteq> ''A'' \<and> ''C'' \<noteq> ''B'' \<and>
   map_option (reads_as (''e2'', score_event ''A'' 2)) (getLatestScoreByAdmin ex_log ''s1'' ''A'')
     = Some True \<and>
   map_option (\<lambda>r. (doc_id r, adminId r, createdAt r, scores r))
       (getLatestScoreByAdmin ex_log ''s1'' ''A'')
     = Some (''e2'', ''A'', 2, Some ex_scores) \<and>
   map_option (reads_as (''e3'', score_event ''B'' 3)) (getLatestScoreByAdmin ex_log ''s1'' ''B'')
     = Some True \<and>
   getLatestScoreByAdmin ex_log ''s1'' ''C'' = None \<and>
   getLatestScoreByAdmin (ex_log\<lparr>reachable := False\<rparr>) ''s1'' ''A'' = None"
proof -
  have c: "reachable ex_log \<and> \<not> reachable (ex_log\<lparr>reachable := False\<rparr>) \<and>
   (1::nat) < 2 \<and> (2::nat) < 3 \<and> ''A'' \<noteq> ''B'' \<and> ''C'' \<noteq> ''A'' \<and> ''C'' \<noteq> ''B'' \<and>
   map_option (reads_as (''e2'', score_event ''A'' 2)) (getLatestScoreByAdmin ex_log ''s1'' ''A'')
     = Some True \<and>
   map_option (\<lambda>r. (doc_id r, adminId r, createdAt r, scores r))
       (getLatestScoreByAdmin ex_log ''s1'' ''A'')
     = Some (''e2'', ''A'', 2, Some ex_scores) \<and>
   map_option (reads_as (''e3'', score_event ''B'' 3)) (getLatestScoreByAdmin ex_log ''s1'' ''B'')
     = Some True \<and>
   getLatestScoreByAdmin ex_log ''s1'' ''C'' = None \<and>
   getLatestScoreByAdmin (ex_log\<lparr>reachable := False\<rparr>) ''s1'' ''A'' = None"
    by (simp add: ex_log_def store_of_def getLatestScoreByAdmin_def getDocs_def runQuery_def
        orderByCreatedAtDesc_def score_event_def reads_as_def toComment_def)
  show ?thesis
    using getLatestScoreByAdmin_latest
      [of ex_log "''s1''" "''A''" 1 2 3 "''A''" "''B''" "''e1''" "''e2''" "''e3''" "''C''"]
      getLatestScoreByAdmin_latest
      [of "ex_log\<lparr>reachable := False\<rparr>" "''s1''" "''A''" 1 2 3 "''A''" "''B''" "''e1''" "''e2''" "''e3''" "''C''"]
    by - (rule c)
qed

section \<open>Writes to the store\<close>

lemma map_fst_patch_doc [simp]: "map fst (patch_doc i f c) = map fst c"
  by (induction c) (auto simp: patch_doc_def)

lemma has_doc_patch_doc [simp]: "has_doc (patch_doc i f c) j = has_doc c j"
  by (simp add: has_doc_def)

lemma in_patch_doc:
  "(j, e) \<in> set (patch_doc i f c) \<longleftrightarrow> (\<exists>d. (j, d) \<in> set c \<and> e = (if j = i then f d else d))"
proof (induction c)
  case Nil
  then show ?case by (simp add: patch_doc_def)
next
  case (Cons p c)
  obtain k d where p: "p = (k, d)" by (cases p)
  have "patch_doc i f (p # c) = (if k = i then (k, f d) else (k, d)) # patch_doc i f c"
    by (simp add: patch_doc_def p)
  then show ?case using Cons p by auto
qed

lemma has_doc_put_doc: "has_doc (put_doc i d c) j \<longleftrightarrow> j = i \<or> has_doc c j"
proof (cases "has_doc c i")
  case True
  then show ?thesis by (auto simp: put_doc_def)
next
  case False
  then show ?thesis by (auto simp: put_doc_def has_doc_def)
qed

lemma in_put_doc:
  "(j, e) \<in> set (put_doc i d c) \<longleftrightarrow> (if j = i then e = d else (j, e) \<in> set c)"
proof (cases "has_doc c i")
  case True
  then obtain d0 where "(i, d0) \<in> set c" by (auto simp: has_doc_def)
  with True show ?thesis by (auto simp: put_doc_def in_patch_doc)
next
  case False
  then have "\<And>x. (i, x) \<notin> set c" by (force simp: has_doc_def)
  with False show ?thesis by (auto simp: put_doc_def)
qed

lemma patch_doc_all2:
  "list_all2 (\<lambda>p q. fst q = fst p \<and> snd q = (if fst p = i then f (snd p) else snd p)) c (patch_doc i f c)"
  by (induction c) (auto simp: patch_doc_def)

section \<open>One score per admin\<close>

text \<open>
  C3. The filter-then-push step of \<^verbatim>\<open>handleSaveScore\<close>: the result is the elements of the
  old list whose \<^verbatim>\<open>adminId\<close> differs from the author's, in their old order, followed by
  the new score. When the new score is the author's, it is the author's only element of the
  result, and a list with at most one element per admin stays one. On a list of an element
  of A followed by an element of B, a new score for A gives the element of B followed by
  the new score.
\<close>

theorem replaceAuthorScore_one_per_admin:
  "butlast (replaceAuthorScore xs a n) = filter (\<lambda>s. sc_adminId s \<noteq> a) xs \<and>
   last (replaceAuthorScore xs a n) = n \<and>
   (\<forall>s\<in>set (butlast (replaceAuthorScore xs a n)). sc_adminId s \<noteq> a \<and> s \<in> set xs) \<and>
   (sc_adminId n = a \<longrightarrow> filter (\<lambda>s. sc_adminId s = a) (replaceAuthorScore xs a n) = [n]) \<and>
   (sc_adminId n = a \<and> distinct (map sc_adminId xs) \<longrightarrow>
      distinct (map sc_adminId (replaceAuthorScore xs a n))) \<and>
   (sc_adminId x = a \<and> sc_adminId y \<noteq> a \<longrightarrow> replaceAuthorScore [x, y] a n = [y, n])"
proof -
  have d: "distinct (map sc_adminId (filter (\<lambda>s. sc_adminId s \<noteq> a) xs))"
    if "distinct (map sc_adminId xs)"
    using that by (simp add: distinct_map_filter)
  have f: "filter (\<lambda>s. sc_adminId s = a) (filter (\<lambda>s. sc_adminId s \<noteq> a) xs) = []"
    by (induction xs) auto
  show ?thesis
    using d f by (auto simp: replaceAuthorScore_def)
qed

theorem replaceAuthorScore_one_per_admin_witness:
  "sc_adminId (score_of ''A'' 5) = ''A'' \<and> sc_adminId (score_of ''B'' 4) \<noteq> ''A'' \<and>
   distinct (map sc_adminId [score_of ''A'' 8, score_of ''B'' 4]) \<and>
   replaceAuthorScore [score_of ''A'' 8, score_of ''B'' 4] ''A'' (score_of ''A'' 5)
     = [score_of ''B'' 4, score_of ''A'' 5] \<and>
   distinct (map sc_adminId
     (replaceAuthorScore [score_of ''A'' 8, score_of ''B'' 4] ''A'' (score_of ''A'' 5)))"
  using replaceAuthorScore_one_per_admin
    [of "[score_of ''A'' 8, score_of ''B'' 4]" "''A''" "score_of ''A'' 5" "score_of ''A'' 8" "score_of ''B'' 4"]
  by (simp add: score_of_def replaceAuthorScore_def)

lemma deleteComment_Inr:
  "deleteComment fs now sid i = Inr fs' \<longleftrightarrow>
     reachable fs \<and> has_doc (ShortFilmComments fs sid) i \<and>
     fs' = fs\<lparr>ShortFilmComments := (ShortFilmComments fs)
             (sid := patch_doc i (\<lambda>d. d\<lparr>isDeleted := True, updatedAt := Some now\<rparr>) (ShortFilmComments fs sid))\<rparr>"
  by (auto simp: deleteComment_def updateDoc_def)

lemma updateComment_Inr:
  "updateComment fs now sid i text = Inr fs' \<longleftrightarrow>
     reachable fs \<and> has_doc (ShortFilmComments fs sid) i \<and>
     fs' = fs\<lparr>ShortFilmComments := (ShortFilmComments fs)
             (sid := patch_doc i (\<lambda>d. d\<lparr>content := text, updatedAt := Some now, isEdited := True\<rparr>)
                       (ShortFilmComments fs sid))\<rparr>"
  by (auto simp: updateComment_def updateDoc_def)

lemma updateComment_P_Inr:
  "updateComment_P fs now sid i text md = Inr fs' \<longleftrightarrow>
     reachable fs \<and> has_doc (ShortFilmComments fs sid) i \<and>
     fs' = fs\<lparr>ShortFilmComments := (ShortFilmComments fs)
             (sid := patch_doc i (\<lambda>d. d\<lparr>content := text, metadata := Some (metadata_or_empty md),
                                         updatedAt := Some now, isEdited := True\<rparr>)
                       (ShortFilmComments fs sid))\<rparr>"
  by (auto simp: updateComment_P_def updateDoc_def)

lemma updateComment_Inl:
  "updateComment fs now sid i text = Inl e \<longleftrightarrow>
     (\<not> reachable fs \<or> \<not> has_doc (ShortFilmComments fs sid) i) \<and> e = Error ''Failed to update comment''"
  by (auto simp: updateComment_def updateDoc_def)

lemma updateComment_P_Inl:
  "updateComment_P fs now sid i text md = Inl e \<longleftrightarrow>
     (\<not> reachable fs \<or> \<not> has_doc (ShortFilmComments fs sid) i) \<and> e = Error ''Failed to update comment''"
  by (auto simp: updateComment_P_def updateDoc_def)

text \<open>No call of the service removes a document.\<close>

lemma has_doc_exec:
  "has_doc (ShortFilmComments fs sid) i \<Longrightarrow> has_doc (ShortFilmComments (exec c fs) sid) i"
  by (cases c)
     (auto simp: addGeneralComment_def addScoringComment_def addScoringComment_P_def
        addStatusChangeComment_def addFlagComment_def updateComment_def updateComment_P_def
        deleteComment_def addDoc_def updateDoc_def has_doc_put_doc Let_def)

lemma has_doc_run:
  "has_doc (ShortFilmComments fs sid) i \<Longrightarrow> has_doc (ShortFilmComments (run cs fs) sid) i"
  by (induction cs arbitrary: fs) (auto simp: has_doc_exec)

section \<open>Soft delete\<close>

text \<open>
  C4, as the claim states it, fails: the second \<^verbatim>\<open>deleteComment\<close> of an event writes
  \<^verbatim>\<open>updatedAt\<close> again, so the stored event after the second call (at time 9) is not the
  stored event after the first (at time 5).
\<close>

theorem deleteComment_twice_counterexample:
  "deleteComment (store_of [(''e1'', general_event ''A'' 1)]) 5 ''s1'' ''e1''
     = Inr (store_of [(''e1'', (general_event ''A'' 1)\<lparr>isDeleted := True, updatedAt := Some 5\<rparr>)]) \<and>
   deleteComment (store_of [(''e1'', (general_event ''A'' 1)\<lparr>isDeleted := True, updatedAt := Some 5\<rparr>)])
       9 ''s1'' ''e1''
     = Inr (store_of [(''e1'', (general_event ''A'' 1)\<lparr>isDeleted := True, updatedAt := Some 9\<rparr>)]) \<and>
   store_of [(''e1'', (general_event ''A'' 1)\<lparr>isDeleted := True, updatedAt := Some 9\<rparr>)]
     \<noteq> store_of [(''e1'', (general_event ''A'' 1)\<lparr>isDeleted := True, updatedAt := Some 5\<rparr>)]"
  by (simp add: deleteComment_def updateDoc_def store_of_def has_doc_def patch_doc_def
      general_event_def fun_eq_iff)

text \<open>
  C4, amended. With the backend reachable, \<^verbatim>\<open>deleteComment\<close> on an event that is stored
  and already deleted succeeds; it changes nothing but \<^verbatim>\<open>updatedAt\<close> of that event, which
  becomes the time of the call; \<^verbatim>\<open>isDeleted\<close> stays true; and no sequence of service
  calls removes the event from the store.
\<close>

theorem deleteComment_again:
  assumes "reachable fs" and "has_doc (ShortFilmComments fs sid) i"
    and "\<forall>d. (i, d) \<in> set (ShortFilmComments fs sid) \<longrightarrow> isDeleted d"
  shows "(\<exists>fs'. deleteComment fs now sid i = Inr fs' \<and>
            ShortFilmComments fs' sid
              = patch_doc i (\<lambda>d. d\<lparr>updatedAt := Some now\<rparr>) (ShortFilmComments fs sid) \<and>
            (\<forall>d. (i, d) \<in> set (ShortFilmComments fs' sid) \<longrightarrow> isDeleted d \<and> updatedAt d = Some now) \<and>
            (\<forall>sid'. sid' \<noteq> sid \<longrightarrow> ShortFilmComments fs' sid' = ShortFilmComments fs sid') \<and>
            submissions fs' = submissions fs \<and> reachable fs' = reachable fs) \<and>
         (\<forall>cs. has_doc (ShortFilmComments (run cs fs) sid) i)"
proof -
  let ?c = "ShortFilmComments fs sid"
  have eq: "patch_doc i (\<lambda>d. d\<lparr>isDeleted := True, updatedAt := Some now\<rparr>) ?c
          = patch_doc i (\<lambda>d. d\<lparr>updatedAt := Some now\<rparr>) ?c"
    unfolding patch_doc_def using assms(3) by (intro map_cong) auto
  define fs' where "fs' = fs\<lparr>ShortFilmComments := (ShortFilmComments fs)
             (sid := patch_doc i (\<lambda>d. d\<lparr>isDeleted := True, updatedAt := Some now\<rparr>) ?c)\<rparr>"
  have 1: "deleteComment fs now sid i = Inr fs'"
    using assms(1,2) by (simp add: deleteComment_Inr fs'_def)
  have 2: "ShortFilmComments fs' sid = patch_doc i (\<lambda>d. d\<lparr>updatedAt := Some now\<rparr>) ?c"
    by (simp add: fs'_def eq)
  have 3: "\<forall>d. (i, d) \<in> set (ShortFilmComments fs' sid) \<longrightarrow> isDeleted d \<and> updatedAt d = Some now"
    using assms(3) by (auto simp: 2 in_patch_doc)
  have 4: "(\<forall>sid'. sid' \<noteq> sid \<longrightarrow> ShortFilmComments fs' sid' = ShortFilmComments fs sid') \<and>
            submissions fs' = submissions fs \<and> reachable fs' = reachable fs"
    by (simp add: fs'_def)
  show ?thesis using 1 2 3 4 assms(2) by (auto simp: has_doc_run)
qed

theorem deleteComment_again_witness:
  "reachable (store_of [(''e1'', deleted_event)]) \<and>
   has_doc (ShortFilmComments (store_of [(''e1'', deleted_event)]) ''s1'') ''e1'' \<and>
   isDeleted deleted_event \<and>
   deleteComment (store_of [(''e1'', deleted_event)]) 9 ''s1'' ''e1''
     = Inr (store_of [(''e1'', deleted_event\<lparr>updatedAt := Some 9\<rparr>)]) \<and>
   has_doc (ShortFilmComments (run [DeleteComment 9 ''s1'' ''e1'', DeleteComment 10 ''s1'' ''e1'']
      (store_of [(''e1'', deleted_event)])) ''s1'') ''e1''"
  using deleteComment_again [of "store_of [(''e1'', deleted_event)]" "''s1''" "''e1''" 9]
  by (simp add: deleteComment_def updateDoc_def store_of_def has_doc_def patch_doc_def
      general_event_def deleted_event_def fun_eq_iff)

section \<open>Edit\<close>

text \<open>
  C5, as the claim states it, fails: \<^verbatim>\<open>updateComment\<close> on an event that is already
  soft-deleted does not fail; it succeeds and rewrites the event (in both copies of the
  service).
\<close>

theorem updateComment_deleted_counterexample:
  "isDeleted deleted_event \<and>
   updateComment (store_of [(''e1'', deleted_event)]) 9 ''s1'' ''e1'' ''second cut''
     = Inr (store_of [(''e1'', deleted_event\<lparr>content := ''second cut'', updatedAt := Some 9,
                                              isEdited := True\<rparr>)]) \<and>
   updateComment_P (store_of [(''e1'', deleted_event)]) 9 ''s1'' ''e1'' ''second cut'' None
     = Inr (store_of [(''e1'', deleted_event\<lparr>content := ''second cut'', metadata := Some [],
                                              updatedAt := Some 9, isEdited := True\<rparr>)])"
  by (simp add: updateComment_def updateComment_P_def updateDoc_def store_of_def has_doc_def
      patch_doc_def general_event_def deleted_event_def fun_eq_iff)

text \<open>
  C5, amended. \<^verbatim>\<open>updateComment\<close> throws \<^verbatim>\<open>Error('Failed to update comment')\<close> when the
  backend is unreachable or the target event does not exist, and the store stays as it was;
  on every stored event, deleted or not and of any type, it succeeds when the backend is
  reachable, and the event then has the new content, \<^verbatim>\<open>isEdited = true\<close> and
  \<^verbatim>\<open>updatedAt\<close> the time of the call. Both copies of the service.
\<close>

theorem updateComment_outcome:
  "(\<not> reachable fs \<or> \<not> has_doc (ShortFilmComments fs sid) i \<longrightarrow>
      updateComment fs now sid i text = Inl (Error ''Failed to update comment'') \<and>
      updateComment_P fs now sid i text md = Inl (Error ''Failed to update comment'') \<and>
      exec (UpdateComment now sid i text) fs = fs \<and>
      exec (UpdateComment_P now sid i text md) fs = fs) \<and>
   (reachable fs \<and> has_doc (ShortFilmComments fs sid) i \<longrightarrow>
      (\<exists>fs'. updateComment fs now sid i text = Inr fs' \<and>
         has_doc (ShortFilmComments fs' sid) i \<and>
         (\<forall>d. (i, d) \<in> set (ShortFilmComments fs' sid) \<longrightarrow>
            content d = text \<and> isEdited d \<and> updatedAt d = Some now)) \<and>
      (\<exists>fs'. updateComment_P fs now sid i text md = Inr fs' \<and>
         has_doc (ShortFilmComments fs' sid) i \<and>
         (\<forall>d. (i, d) \<in> set (ShortFilmComments fs' sid) \<longrightarrow>
            content d = text \<and> isEdited d \<and> updatedAt d = Some now)))"
proof (intro conjI impI)
  assume f: "\<not> reachable fs \<or> \<not> has_doc (ShortFilmComments fs sid) i"
  then show a: "updateComment fs now sid i text = Inl (Error ''Failed to update comment'')"
    by (simp add: updateComment_Inl)
  from f show b: "updateComment_P fs now sid i text md = Inl (Error ''Failed to update comment'')"
    by (simp add: updateComment_P_Inl)
  from a show "exec (UpdateComment now sid i text) fs = fs" by simp
  from b show "exec (UpdateComment_P now sid i text md) fs = fs" by simp
next
  assume ok: "reachable fs \<and> has_doc (ShortFilmComments fs sid) i"
  then show "\<exists>fs'. updateComment fs now sid i text = Inr fs' \<and>
         has_doc (ShortFilmComments fs' sid) i \<and>
         (\<forall>d. (i, d) \<in> set (ShortFilmComments fs' sid) \<longrightarrow>
            content d = text \<and> isEdited d \<and> updatedAt d = Some now)"
    by (auto simp: updateComment_Inr in_patch_doc)
  from ok show "\<exists>fs'. updateComment_P fs now sid i text md = Inr fs' \<and>
         has_doc (ShortFilmComments fs' sid) i \<and>
         (\<forall>d. (i, d) \<in> set (ShortFilmComments fs' sid) \<longrightarrow>
            content d = text \<and> isEdited d \<and> updatedAt d = Some now)"
    by (auto simp: updateComment_P_Inr in_patch_doc)
qed

theorem updateComment_outcome_witness:
  "\<not> has_doc (ShortFilmComments (store_of [(''e1'', general_event ''A'' 1)]) ''s1'') ''e2'' \<and>
   updateComment (store_of [(''e1'', general_event ''A'' 1)]) 9 ''s1'' ''e2'' ''second cut''
     = Inl (Error ''Failed to update comment'') \<and>
   reachable (store_of [(''e1'', general_event ''A'' 1)]) \<and>
   has_doc (ShortFilmComments (store_of [(''e1'', general_event ''A'' 1)]) ''s1'') ''e1'' \<and>
   updateComment (store_of [(''e1'', general_event ''A'' 1)]) 9 ''s1'' ''e1'' ''second cut''
     = Inr (store_of [(''e1'', (general_event ''A'' 1)\<lparr>content := ''second cut'',
                                 updatedAt := Some 9, isEdited := True\<rparr>)])"
  using updateComment_outcome [of "store_of [(''e1'', general_event ''A'' 1)]" "''s1''" "''e2''" 9 "''second cut''" None]
    updateComment_outcome [of "store_of [(''e1'', general_event ''A'' 1)]" "''s1''" "''e1''" 9 "''second cut''" None]
  by (simp add: updateComment_def updateDoc_def store_of_def has_doc_def
      patch_doc_def general_event_def fun_eq_iff)

text \<open>
  C9, as the claim states it, fails on the copy of the service whose \<^verbatim>\<open>updateComment\<close>
  takes an optional \<^verbatim>\<open>metadata\<close> argument: the edit writes the metadata it is given over
  the stored metadata.
\<close>

theorem updateComment_P_metadata_counterexample:
  "metadata (general_event ''A'' 1) = Some [(''k'', JString ''v'')] \<and>
   updateComment_P (store_of [(''e1'', general_event ''A'' 1)]) 9 ''s1'' ''e1'' ''second cut''
       (Some [(''pinned'', JBool True)])
     = Inr (store_of [(''e1'', (general_event ''A'' 1)\<lparr>content := ''second cut'',
                                 metadata := Some [(''pinned'', JBool True)],
                                 updatedAt := Some 9, isEdited := True\<rparr>)])"
  by (simp add: updateComment_P_def updateDoc_def store_of_def has_doc_def
      patch_doc_def general_event_def fun_eq_iff)

text \<open>
  C9, amended. A successful \<^verbatim>\<open>updateComment\<close> keeps the documents of the log and their
  order; in the target event it leaves \<^verbatim>\<open>submissionId\<close>, \<^verbatim>\<open>adminId\<close>, \<^verbatim>\<open>adminName\<close>,
  \<^verbatim>\<open>adminEmail\<close>, \<^verbatim>\<open>type\<close>, \<^verbatim>\<open>scores\<close>, \<^verbatim>\<open>createdAt\<close> and \<^verbatim>\<open>isDeleted\<close> as they
  were; every other event is unchanged, and so are the other logs and the submission
  documents. The service of \<^verbatim>\<open>services/shortFilmCommentsService.ts\<close> leaves \<^verbatim>\<open>metadata\<close>
  unchanged as well; the copy with the \<^verbatim>\<open>metadata\<close> argument writes it.
\<close>

theorem updateComment_frame:
  "(updateComment fs now sid i text = Inr fs' \<longrightarrow>
      list_all2 (\<lambda>p q. fst q = fst p \<and> same_identity (snd p) (snd q) \<and>
                        metadata (snd q) = metadata (snd p) \<and> (fst p \<noteq> i \<longrightarrow> snd q = snd p))
        (ShortFilmComments fs sid) (ShortFilmComments fs' sid) \<and>
      (\<forall>sid'. sid' \<noteq> sid \<longrightarrow> ShortFilmComments fs' sid' = ShortFilmComments fs sid') \<and>
      submissions fs' = submissions fs) \<and>
   (updateComment_P fs now sid i text md = Inr fs' \<longrightarrow>
      list_all2 (\<lambda>p q. fst q = fst p \<and> same_identity (snd p) (snd q) \<and> (fst p \<noteq> i \<longrightarrow> snd q = snd p))
        (ShortFilmComments fs sid) (ShortFilmComments fs' sid) \<and>
      (\<forall>sid'. sid' \<noteq> sid \<longrightarrow> ShortFilmComments fs' sid' = ShortFilmComments fs sid') \<and>
      submissions fs' = submissions fs)"
proof (intro conjI impI)
  assume "updateComment fs now sid i text = Inr fs'"
  then have fs': "fs' = fs\<lparr>ShortFilmComments := (ShortFilmComments fs)
             (sid := patch_doc i (\<lambda>d. d\<lparr>content := text, updatedAt := Some now, isEdited := True\<rparr>)
                       (ShortFilmComments fs sid))\<rparr>"
    by (simp add: updateComment_Inr)
  show "list_all2 (\<lambda>p q. fst q = fst p \<and> same_identity (snd p) (snd q) \<and>
                        metadata (snd q) = metadata (snd p) \<and> (fst p \<noteq> i \<longrightarrow> snd q = snd p))
        (ShortFilmComments fs sid) (ShortFilmComments fs' sid)"
    unfolding fs' by (simp, rule list_all2_mono [OF patch_doc_all2]) (auto simp: same_identity_def)
  show "\<forall>sid'. sid' \<noteq> sid \<longrightarrow> ShortFilmComments fs' sid' = ShortFilmComments fs sid'"
    by (simp add: fs')
  show "submissions fs' = submissions fs" by (simp add: fs')
next
  assume "updateComment_P fs now sid i text md = Inr fs'"
  then have fs': "fs' = fs\<lparr>ShortFilmComments := (ShortFilmComments fs)
             (sid := patch_doc i (\<lambda>d. d\<lparr>content := text, metadata := Some (metadata_or_empty md),
                                         updatedAt := Some now, isEdited := True\<rparr>)
                       (ShortFilmComments fs sid))\<rparr>"
    by (simp add: updateComment_P_Inr)
  show "list_all2 (\<lambda>p q. fst q = fst p \<and> same_identity (snd p) (snd q) \<and> (fst p \<noteq> i \<longrightarrow> snd q = snd p))
        (ShortFilmComments fs sid) (ShortFilmComments fs' sid)"
    unfolding fs' by (simp, rule list_all2_mono [OF patch_doc_all2]) (auto simp: same_identity_def)
  show "\<forall>sid'. sid' \<noteq> sid \<longrightarrow> ShortFilmComments fs' sid' = ShortFilmComments fs sid'"
    by (simp add: fs')
  show "submissions fs' = submissions fs" by (simp add: fs')
qed

theorem updateComment_frame_witness:
  "updateComment (store_of [(''e1'', general_event ''A'' 1), (''e2'', score_event ''B'' 2)]) 9 ''s1'' ''e1'' ''second cut''
     = Inr (store_of [(''e1'', (general_event ''A'' 1)\<lparr>content := ''second cut'',
                                 updatedAt := Some 9, isEdited := True\<rparr>), (''e2'', score_event ''B'' 2)]) \<and>
   same_identity (general_event ''A'' 1)
     ((general_event ''A'' 1)\<lparr>content := ''second cut'', updatedAt := Some 9, isEdited := True\<rparr>) \<and>
   updateComment_P (store_of [(''e1'', general_event ''A'' 1), (''e2'', score_event ''B'' 2)]) 9 ''s1'' ''e1'' ''second cut'' (Some [])
     = Inr (store_of [(''e1'', (general_event ''A'' 1)\<lparr>content := ''second cut'', metadata := Some [],
                                 updatedAt := Some 9, isEdited := True\<rparr>), (''e2'', score_event ''B'' 2)])"
  using updateComment_frame [of "store_of [(''e1'', general_event ''A'' 1), (''e2'', score_event ''B'' 2)]" 9 "''s1''" "''e1''" "''second cut''"
      "store_of [(''e1'', (general_event ''A'' 1)\<lparr>content := ''second cut'',
                                 updatedAt := Some 9, isEdited := True\<rparr>), (''e2'', score_event ''B'' 2)]" "Some []"]
    updateComment_frame [of "store_of [(''e1'', general_event ''A'' 1), (''e2'', score_event ''B'' 2)]" 9 "''s1''" "''e1''" "''second cut''"
      "store_of [(''e1'', (general_event ''A'' 1)\<lparr>content := ''second cut'', metadata := Some [],
                                 updatedAt := Some 9, isEdited := True\<rparr>), (''e2'', score_event ''B'' 2)]" "Some []"]
  by (simp add: updateComment_def updateComment_P_def updateDoc_def store_of_def has_doc_def
      patch_doc_def general_event_def score_event_def same_identity_def fun_eq_iff)

section \<open>Scoring events\<close>

lemma addScoringComment_Inr:
  "addScoringComment fs now newId sid aid aname aemail sc text = Inr r \<longleftrightarrow>
     reachable fs \<and>
     r = (newId, fs\<lparr>ShortFilmComments := (ShortFilmComments fs)(sid := put_doc newId
            \<lparr>submissionId = sid, adminId = aid, adminName = aname, adminEmail = aemail,
             content = or_else text ''Scoring evaluation completed'', type = Scoring,
             scores = Some sc, metadata = None, createdAt = now, updatedAt = None,
             isEdited = False, isDeleted = False\<rparr> (ShortFilmComments fs sid))\<rparr>)"
  by (auto simp: addScoringComment_def addDoc_def)

lemma addScoringComment_P_Inr:
  "addScoringComment_P fs now newId sid aid aname aemail sc text md = Inr r \<longleftrightarrow>
     reachable fs \<and>
     r = (newId, fs\<lparr>ShortFilmComments := (ShortFilmComments fs)(sid := put_doc newId
            \<lparr>submissionId = sid, adminId = aid, adminName = aname, adminEmail = aemail,
             content = or_else text [], type = Scoring,
             scores = Some sc, metadata = Some (metadata_or_empty md), createdAt = now,
             updatedAt = None, isEdited = False, isDeleted = False\<rparr> (ShortFilmComments fs sid))\<rparr>)"
  by (auto simp: addScoringComment_P_def addDoc_def)

text \<open>
  C7, as the claim states it, fails: \<^verbatim>\<open>addScoringComment\<close> validates nothing. A payload
  with a sub-score of 11, a sub-score of -3 and a total of 99 (the sum is 33) is stored, by
  both copies of the service.
\<close>

theorem addScoringComment_bad_payload_counterexample:
  "technical bad_scores = 11 \<and> story bad_scores = - 3 \<and>
   totalScore bad_scores = 99 \<and> recomputeTotal bad_scores = 33 \<and>
   addScoringComment (store_of []) 3 ''e1'' ''s1'' ''A'' ''Ann'' ''ann@x'' bad_scores None
     = Inr (''e1'', store_of [(''e1'',
         \<lparr>submissionId = ''s1'', adminId = ''A'', adminName = ''Ann'', adminEmail = ''ann@x'',
          content = ''Scoring evaluation completed'', type = Scoring, scores = Some bad_scores,
          metadata = None, createdAt = 3, updatedAt = None, isEdited = False,
          isDeleted = False\<rparr>)]) \<and>
   addScoringComment_P (store_of []) 3 ''e1'' ''s1'' ''A'' ''Ann'' ''ann@x'' bad_scores None None
     = Inr (''e1'', store_of [(''e1'',
         \<lparr>submissionId = ''s1'', adminId = ''A'', adminName = ''Ann'', adminEmail = ''ann@x'',
          content = [], type = Scoring, scores = Some bad_scores,
          metadata = Some [], createdAt = 3, updatedAt = None, isEdited = False,
          isDeleted = False\<rparr>)])"
  by (simp add: addScoringComment_def addScoringComment_P_def addDoc_def put_doc_def has_doc_def
      store_of_def bad_scores_def recomputeTotal_def fun_eq_iff)

text \<open>
  C7, amended. With the backend reachable, \<^verbatim>\<open>addScoringComment\<close> stores every payload as
  it is given, whatever its sub-scores and its total, in a scoring event under the new id;
  its only failure is the failure of the store, thrown as
  \<^verbatim>\<open>Error('Failed to save scores and comment')\<close> (in the copy:
  \<^verbatim>\<open>Error('Failed to add scoring comment')\<close>).
\<close>

theorem addScoringComment_stores_any_payload:
  "(reachable fs \<longrightarrow>
      (\<exists>fs'. addScoringComment fs now newId sid aid aname aemail sc text = Inr (newId, fs') \<and>
         has_doc (ShortFilmComments fs' sid) newId \<and>
         (\<forall>d. (newId, d) \<in> set (ShortFilmComments fs' sid) \<longrightarrow> type d = Scoring \<and> scores d = Some sc)) \<and>
      (\<exists>fs'. addScoringComment_P fs now newId sid aid aname aemail sc text md = Inr (newId, fs') \<and>
         has_doc (ShortFilmComments fs' sid) newId \<and>
         (\<forall>d. (newId, d) \<in> set (ShortFilmComments fs' sid) \<longrightarrow> type d = Scoring \<and> scores d = Some sc))) \<and>
   (\<not> reachable fs \<longrightarrow>
      addScoringComment fs now newId sid aid aname aemail sc text
        = Inl (Error ''Failed to save scores and comment'') \<and>
      addScoringComment_P fs now newId sid aid aname aemail sc text md
        = Inl (Error ''Failed to add scoring comment''))"
proof (intro conjI impI)
  assume r: "reachable fs"
  then show "\<exists>fs'. addScoringComment fs now newId sid aid aname aemail sc text = Inr (newId, fs') \<and>
         has_doc (ShortFilmComments fs' sid) newId \<and>
         (\<forall>d. (newId, d) \<in> set (ShortFilmComments fs' sid) \<longrightarrow> type d = Scoring \<and> scores d = Some sc)"
    by (simp add: addScoringComment_Inr has_doc_put_doc in_put_doc)
  from r show "\<exists>fs'. addScoringComment_P fs now newId sid aid aname aemail sc text md = Inr (newId, fs') \<and>
         has_doc (ShortFilmComments fs' sid) newId \<and>
         (\<forall>d. (newId, d) \<in> set (ShortFilmComments fs' sid) \<longrightarrow> type d = Scoring \<and> scores d = Some sc)"
    by (simp add: addScoringComment_P_Inr has_doc_put_doc in_put_doc)
next
  assume "\<not> reachable fs"
  then show "addScoringComment fs now newId sid aid aname aemail sc text
        = Inl (Error ''Failed to save scores and comment'')"
    by (simp add: addScoringComment_def addDoc_def)
next
  assume "\<not> reachable fs"
  then show "addScoringComment_P fs now newId sid aid aname aemail sc text md
        = Inl (Error ''Failed to add scoring comment'')"
    by (simp add: addScoringComment_P_def addDoc_def)
qed

theorem addScoringComment_stores_any_payload_witness:
  "reachable (store_of []) \<and>
   map (\<lambda>p. (fst p, scores (snd p)))
     (ShortFilmComments (snd (projr
        (addScoringComment (store_of []) 3 ''e1'' ''s1'' ''A'' ''Ann'' ''ann@x'' ex_scores None))) ''s1'')
     = [(''e1'', Some ex_scores)] \<and>
   \<not> reachable ((store_of [])\<lparr>reachable := False\<rparr>) \<and>
   addScoringComment ((store_of [])\<lparr>reachable := False\<rparr>) 3 ''e1'' ''s1'' ''A'' ''Ann'' ''ann@x'' ex_scores None
     = Inl (Error ''Failed to save scores and comment'')"
  using addScoringComment_stores_any_payload [of "store_of []" 3 "''e1''" "''s1''" "''A''" "''Ann''" "''ann@x''" ex_scores None None]
    addScoringComment_stores_any_payload [of "(store_of [])\<lparr>reachable := False\<rparr>" 3 "''e1''" "''s1''" "''A''" "''Ann''" "''ann@x''" ex_scores None None]
  by (simp add: addScoringComment_def addDoc_def put_doc_def has_doc_def store_of_def)

text \<open>
  C1 fails on \<^verbatim>\<open>handleSaveScore\<close> of \<^verbatim>\<open>AdminApplicationDetailPage.tsx\<close>, which passes
  \<^verbatim>\<open>scores.totalScore\<close> on: for scores 8, 7, 9, 6, 10 that come with the total 0, the
  scoring event it stores has the total 0, not 40, and so has the element it writes to the
  submission's \<^verbatim>\<open>scores\<close> array.
\<close>

theorem handleSaveScore_P_trusts_total:
  "totalScore client_scores = 0 \<and> recomputeTotal client_scores = 40 \<and>
   map (\<lambda>p. (fst p, map_option totalScore (scores (snd p))))
     (ShortFilmComments
        (snd (handleSaveScore_P addScoringComment ''s1'' 3 ''e1'' client_scores (ex_page, ex_store)))
        ''s1'')
     = [(''e1'', Some 0)] \<and>
   map_option (\<lambda>s. map totalScore (sub_scores s))
     (submissions
        (snd (handleSaveScore_P addScoringComment ''s1'' 3 ''e1'' client_scores (ex_page, ex_store)))
        ''s1'') = Some [0]"
  by (simp add: handleSaveScore_P_def addScoringComment_def addDoc_def put_doc_def has_doc_def
      updateSubmission_def replaceAuthorScore_def ex_page_def ex_store_def client_scores_def
      score_of_def recomputeTotal_def adminNameOf_def Let_def)

text \<open>
  \<^verbatim>\<open>handleSaveScore\<close> of \<^verbatim>\<open>unnamed/part_000\<close> recomputes: whenever it adds an event to
  the log, the total of the event is the sum of its five sub-scores, which are those of the
  argument.
\<close>

lemma handleSaveScore_recomputes:
  assumes "handleSaveScore addScoringComment ok sid now localNow newId sc (pg, fs) = (pg', fs')"
    and "ShortFilmComments fs' sid \<noteq> ShortFilmComments fs sid"
    and "(newId, d) \<in> set (ShortFilmComments fs' sid)"
  shows "\<exists>p. scores d = Some p \<and>
           totalScore p = technical p + story p + creativity p + chiangmai p + humanEffort p \<and>
           technical p = technical sc \<and> story p = story sc \<and> creativity p = creativity sc \<and>
           chiangmai p = chiangmai sc \<and> humanEffort p = humanEffort sc"
  using assms
  by (auto simp: handleSaveScore_def addScoringComment_def addDoc_def updateSubmission_def
      recomputeTotal_def in_put_doc Let_def
      split: option.splits if_splits sum.splits prod.splits)

section \<open>Errors of a subscription\<close>

text \<open>
  C8 fails on the copy of \<^verbatim>\<open>subscribeToComments\<close> in \<^verbatim>\<open>AdminApplicationDetailPage.tsx\<close>:
  on an error of the stream its handler does not call the callback, and the page stays as
  it was, still loading. The handler of \<^verbatim>\<open>services/shortFilmCommentsService.ts\<close> delivers
  the empty list.
\<close>

theorem subscribeToComments_P_error_silent:
  "loadingComments ex_page \<and> \<not> reachable (ex_store\<lparr>reachable := False\<rparr>) \<and>
   onSnapshot_fire (ex_store\<lparr>reachable := False\<rparr>) ''s1'' (subscribeToComments_P comments_callback) ex_page
     = ex_page \<and>
   onSnapshot_fire (ex_store\<lparr>reachable := False\<rparr>) ''s1'' (subscribeToComments comments_callback) ex_page
     = ex_page\<lparr>comments := [], loadingComments := False\<rparr>"
  by (simp add: onSnapshot_fire_def subscribeToComments_def subscribeToComments_P_def getDocs_def
      comments_callback_def ex_page_def ex_store_def)

text \<open>The error handler of \<^verbatim>\<open>services/shortFilmCommentsService.ts\<close>, for every callback.\<close>

lemma subscribeToComments_error_delivers_empty:
  "on_error (subscribeToComments callback) = callback [] \<and>
   (\<not> reachable fs \<longrightarrow> onSnapshot_fire fs sid (subscribeToComments callback) u = callback [] u)"
  by (simp add: onSnapshot_fire_def subscribeToComments_def getDocs_def)

section \<open>Histories of the log\<close>

text \<open>What one call does to the store.\<close>

lemma exec_add_unreachable:
  "adds_id sid i c \<Longrightarrow> \<not> reachable fs \<Longrightarrow> exec c fs = fs"
  by (cases c)
     (auto simp: addGeneralComment_def addScoringComment_def addScoringComment_P_def
        addStatusChangeComment_def addFlagComment_def addDoc_def Let_def)

lemma exec_add:
  assumes "adds_id sid i c" and "reachable fs"
  shows "\<exists>d. exec c fs =
             fs\<lparr>ShortFilmComments := (ShortFilmComments fs)(sid := put_doc i d (ShortFilmComments fs sid))\<rparr> \<and>
           \<not> isEdited d \<and> \<not> isDeleted d \<and> createdAt d = time_of c"
proof (cases c)
  case (AddGeneralComment now newId sid' aid aname aemail tx md)
  then show ?thesis using assms
    apply (simp add: addGeneralComment_def addDoc_def)
    apply (rule exI, rule conjI, rule refl, simp)
    done
next
  case (AddScoringComment now newId sid' aid aname aemail sc tx)
  then show ?thesis using assms
    apply (simp add: addScoringComment_def addDoc_def)
    apply (rule exI, rule conjI, rule refl, simp)
    done
next
  case (AddScoringComment_P now newId sid' aid aname aemail sc tx md)
  then show ?thesis using assms
    apply (simp add: addScoringComment_P_def addDoc_def)
    apply (rule exI, rule conjI, rule refl, simp)
    done
next
  case (AddStatusChangeComment now newId sid' aid aname aemail old new reason)
  then show ?thesis using assms
    apply (simp add: addStatusChangeComment_def addDoc_def Let_def split del: if_split)
    apply (rule exI, rule conjI, rule refl, simp)
    done
next
  case (AddFlagComment now newId sid' aid aname aemail flagged reason)
  then show ?thesis using assms
    apply (simp add: addFlagComment_def addDoc_def Let_def split del: if_split)
    apply (rule exI, rule conjI, rule refl, simp)
    done
qed (use assms in auto)

lemma exec_patch:
  assumes "is_edit_of sid i c \<or> is_delete_of sid i c"
  shows "\<exists>f. (\<forall>d. isDeleted (f d) = (isDeleted d \<or> is_delete_of sid i c) \<and>
                    isEdited (f d) = (isEdited d \<or> is_edit_of sid i c) \<and>
                    createdAt (f d) = createdAt d \<and> type (f d) = type d) \<and>
           exec c fs = (if reachable fs \<and> has_doc (ShortFilmComments fs sid) i
             then fs\<lparr>ShortFilmComments := (ShortFilmComments fs)(sid := patch_doc i f (ShortFilmComments fs sid))\<rparr>
             else fs)"
proof (cases c)
  case (UpdateComment now sid' i' tx)
  then show ?thesis using assms
    by (intro exI [of _ "\<lambda>d. d\<lparr>content := tx, updatedAt := Some now, isEdited := True\<rparr>"])
       (auto simp: updateComment_def updateDoc_def)
next
  case (UpdateComment_P now sid' i' tx md)
  then show ?thesis using assms
    by (intro exI [of _ "\<lambda>d. d\<lparr>content := tx, metadata := Some (metadata_or_empty md),
                               updatedAt := Some now, isEdited := True\<rparr>"])
       (auto simp: updateComment_P_def updateDoc_def)
next
  case (DeleteComment now sid' i')
  then show ?thesis using assms
    by (intro exI [of _ "\<lambda>d. d\<lparr>isDeleted := True, updatedAt := Some now\<rparr>"])
       (auto simp: deleteComment_def updateDoc_def)
qed (use assms in auto)

lemma exec_other_log:
  assumes "\<not> adds_id sid i c" and "\<not> is_edit_of sid i c" and "\<not> is_delete_of sid i c"
    and "(i, d) \<in> set (ShortFilmComments (exec c fs) sid)"
  shows "(i, d) \<in> set (ShortFilmComments fs sid)"
proof (cases c)
  case (AddGeneralComment now newId sid' aid aname aemail tx md)
  then show ?thesis using assms
    by (auto simp: addGeneralComment_def addDoc_def in_put_doc split: if_splits)
next
  case (AddScoringComment now newId sid' aid aname aemail sc tx)
  then show ?thesis using assms
    by (auto simp: addScoringComment_def addDoc_def in_put_doc split: if_splits)
next
  case (AddScoringComment_P now newId sid' aid aname aemail sc tx md)
  then show ?thesis using assms
    by (auto simp: addScoringComment_P_def addDoc_def in_put_doc split: if_splits)
next
  case (AddStatusChangeComment now newId sid' aid aname aemail old new reason)
  then show ?thesis using assms
    by (auto simp: addStatusChangeComment_def addDoc_def in_put_doc Let_def split: if_splits)
next
  case (AddFlagComment now newId sid' aid aname aemail flagged reason)
  then show ?thesis using assms
    by (auto simp: addFlagComment_def addDoc_def in_put_doc Let_def split: if_splits)
next
  case (UpdateComment now sid' i' tx)
  then show ?thesis using assms
    by (auto simp: updateComment_def updateDoc_def in_patch_doc split: if_splits)
next
  case (UpdateComment_P now sid' i' tx md)
  then show ?thesis using assms
    by (auto simp: updateComment_P_def updateDoc_def in_patch_doc split: if_splits)
next
  case (DeleteComment now sid' i')
  then show ?thesis using assms
    by (auto simp: deleteComment_def updateDoc_def in_patch_doc split: if_splits)
next
  case (SetReachable b)
  then show ?thesis using assms by simp
qed

lemma exec_isEdited:
  assumes "(j, e) \<in> set (ShortFilmComments (exec c fs) sid)" and "isEdited e"
  shows "is_edit_of sid j c \<or> (\<exists>d. (j, d) \<in> set (ShortFilmComments fs sid) \<and> isEdited d)"
proof -
  consider (add) "adds_id sid j c" | (patch) "is_edit_of sid j c \<or> is_delete_of sid j c"
    | (other) "\<not> adds_id sid j c" "\<not> is_edit_of sid j c" "\<not> is_delete_of sid j c"
    by blast
  then show ?thesis
  proof cases
    case add
    show ?thesis
    proof (cases "reachable fs")
      case True
      from exec_add [OF add True] assms show ?thesis
        by (auto simp: in_put_doc)
    next
      case False
      with exec_add_unreachable [OF add] assms show ?thesis by auto
    qed
  next
    case patch
    from exec_patch [OF patch, of fs] assms show ?thesis
      by (auto simp: in_patch_doc split: if_splits)
  next
    case other
    with exec_other_log assms show ?thesis by blast
  qed
qed

lemma exec_isDeleted:
  assumes "(j, e) \<in> set (ShortFilmComments (exec c fs) sid)" and "isDeleted e"
  shows "is_delete_of sid j c \<or> (\<exists>d. (j, d) \<in> set (ShortFilmComments fs sid) \<and> isDeleted d)"
proof -
  consider (add) "adds_id sid j c" | (patch) "is_edit_of sid j c \<or> is_delete_of sid j c"
    | (other) "\<not> adds_id sid j c" "\<not> is_edit_of sid j c" "\<not> is_delete_of sid j c"
    by blast
  then show ?thesis
  proof cases
    case add
    show ?thesis
    proof (cases "reachable fs")
      case True
      from exec_add [OF add True] assms show ?thesis
        by (auto simp: in_put_doc)
    next
      case False
      with exec_add_unreachable [OF add] assms show ?thesis by auto
    qed
  next
    case patch
    from exec_patch [OF patch, of fs] assms show ?thesis
      by (auto simp: in_patch_doc split: if_splits)
  next
    case other
    with exec_other_log assms show ?thesis by blast
  qed
qed

lemma exec_stays_deleted:
  assumes "\<forall>d. (i, d) \<in> set (ShortFilmComments fs sid) \<longrightarrow> isDeleted d"
    and "\<not> adds_id sid i c" and "(i, e) \<in> set (ShortFilmComments (exec c fs) sid)"
  shows "isDeleted e"
proof (cases "is_edit_of sid i c \<or> is_delete_of sid i c")
  case True
  from exec_patch [OF True, of fs] assms show ?thesis
    by (auto simp: in_patch_doc split: if_splits)
next
  case False
  with exec_other_log assms show ?thesis by blast
qed

lemma run_isEdited:
  "(j, e) \<in> set (ShortFilmComments (run cs fs) sid) \<Longrightarrow> isEdited e \<Longrightarrow>
     (\<exists>c\<in>set cs. is_edit_of sid j c) \<or> (\<exists>d. (j, d) \<in> set (ShortFilmComments fs sid) \<and> isEdited d)"
proof (induction cs arbitrary: fs)
  case Nil
  then show ?case by auto
next
  case (Cons c cs)
  from Cons.IH [of "exec c fs"] Cons.prems
  have "(\<exists>c\<in>set cs. is_edit_of sid j c) \<or>
        (\<exists>d. (j, d) \<in> set (ShortFilmComments (exec c fs) sid) \<and> isEdited d)"
    by simp
  then show ?case using exec_isEdited [of j _ c fs sid] by fastforce
qed

lemma run_isDeleted:
  "(j, e) \<in> set (ShortFilmComments (run cs fs) sid) \<Longrightarrow> isDeleted e \<Longrightarrow>
     (\<exists>c\<in>set cs. is_delete_of sid j c) \<or> (\<exists>d. (j, d) \<in> set (ShortFilmComments fs sid) \<and> isDeleted d)"
proof (induction cs arbitrary: fs)
  case Nil
  then show ?case by auto
next
  case (Cons c cs)
  from Cons.IH [of "exec c fs"] Cons.prems
  have "(\<exists>c\<in>set cs. is_delete_of sid j c) \<or>
        (\<exists>d. (j, d) \<in> set (ShortFilmComments (exec c fs) sid) \<and> isDeleted d)"
    by simp
  then show ?case using exec_isDeleted [of j _ c fs sid] by fastforce
qed

lemma run_stays_deleted:
  "\<forall>d. (i, d) \<in> set (ShortFilmComments fs sid) \<longrightarrow> isDeleted d \<Longrightarrow>
   \<forall>c\<in>set cs. \<not> adds_id sid i c \<Longrightarrow>
   (i, e) \<in> set (ShortFilmComments (run cs fs) sid) \<Longrightarrow> isDeleted e"
proof (induction cs arbitrary: fs)
  case Nil
  then show ?case by auto
next
  case (Cons c cs)
  have "\<forall>d. (i, d) \<in> set (ShortFilmComments (exec c fs) sid) \<longrightarrow> isDeleted d"
    using exec_stays_deleted [of i fs sid c] Cons.prems(1,2) by auto
  from Cons.IH [OF this] Cons.prems show ?case by auto
qed

text \<open>Reading the log.\<close>

lemma toComment_simps [simp]:
  "doc_id (toComment p) = fst p" "createdAt (toComment p) = createdAt (snd p)"
  "isDeleted (toComment p) = isDeleted (snd p)" "type (toComment p) = type (snd p)"
  by (simp_all add: toComment_def split: prod.splits)

lemma getComments_Inr:
  "getComments fs sid = Inr cs \<longleftrightarrow>
   reachable fs \<and> cs = map toComment (runQuery (\<lambda>d. \<not> isDeleted d) None (ShortFilmComments fs sid))"
  by (auto simp: getComments_def getDocs_def)

lemma getCommentsByType_Inr:
  "getCommentsByType fs sid ty = Inr cs \<longleftrightarrow>
   reachable fs \<and>
   cs = map toComment (runQuery (\<lambda>d. type d = ty \<and> \<not> isDeleted d) None (ShortFilmComments fs sid))"
  by (auto simp: getCommentsByType_def getDocs_def)

text \<open>\<^verbatim>\<open>getScoringComments\<close> of the copy lists like \<^verbatim>\<open>getCommentsByType\<close> at \<^verbatim>\<open>'scoring'\<close>.\<close>

lemma getScoringComments_eq:
  "getScoringComments fs sid =
     (case getCommentsByType fs sid Scoring of
        Inl e \<Rightarrow> Inl (Error ''Failed to fetch scoring comments'')
      | Inr cs \<Rightarrow> Inr cs)"
  by (simp add: getScoringComments_def getCommentsByType_def getDocs_def)

lemma length_runQuery_None:
  "length (runQuery wh None c) = length (filter (\<lambda>p. wh (snd p)) c)"
  by (simp add: runQuery_def split_def)

lemma newest_first_map_toComment:
  "newest_first (map toComment (runQuery wh lim c))"
  using sorted_runQuery [of wh lim c] by (simp add: newest_first_def sorted_wrt_map)

lemma runQuery_hd_newest:
  assumes "wh d" and "\<forall>p\<in>set c. createdAt (snd p) < createdAt d"
  shows "\<exists>rest. runQuery wh None (put_doc i d c) = (i, d) # rest"
proof -
  let ?r = "runQuery wh None (put_doc i d c)"
  have "(i, d) \<in> set ?r" using assms(1) by (simp add: in_runQuery_None in_put_doc)
  then obtain h rest where r: "?r = h # rest" by (cases ?r) auto
  have srt: "sorted_wrt (\<lambda>x y. createdAt (snd y) \<le> createdAt (snd x)) (h # rest)"
    using sorted_runQuery [of wh None "put_doc i d c"] r by simp
  have "(i, d) \<in> set (h # rest)" using \<open>(i, d) \<in> set ?r\<close> r by simp
  with srt have le: "createdAt d \<le> createdAt (snd h)" by auto
  have "h \<in> set ?r" using r by simp
  then have "h \<in> set (put_doc i d c)" by (simp add: in_runQuery_None)
  moreover obtain a b where h: "h = (a, b)" by (cases h)
  ultimately have "(a, b) \<in> set (put_doc i d c)" by simp
  then have "h = (i, d) \<or> h \<in> set c"
    unfolding in_put_doc h by (simp split: if_splits)
  with le assms(2) have "h = (i, d)" by fastforce
  with r show ?thesis by simp
qed

lemma set_runQuery_None: "set (runQuery wh None c) = {p \<in> set c. wh (snd p)}"
  by (auto simp: runQuery_def)

lemma deleted_never_listed:
  assumes "deleteComment fs now sid i = Inr fs1" and "\<forall>c\<in>set calls. \<not> adds_id sid i c"
  shows "(\<forall>cs. getComments (run calls fs1) sid = Inr cs \<longrightarrow> i \<notin> doc_id ` set cs) \<and>
         (\<forall>cs. getCommentsByType (run calls fs1) sid ty = Inr cs \<longrightarrow> i \<notin> doc_id ` set cs)"
proof -
  let ?log = "ShortFilmComments (run calls fs1) sid"
  have "ShortFilmComments fs1 sid
          = patch_doc i (\<lambda>d. d\<lparr>isDeleted := True, updatedAt := Some now\<rparr>) (ShortFilmComments fs sid)"
    using assms(1) by (simp add: deleteComment_Inr)
  then have all: "\<forall>d. (i, d) \<in> set (ShortFilmComments fs1 sid) \<longrightarrow> isDeleted d"
    by (auto simp: in_patch_doc)
  have gone: "isDeleted e" if "(i, e) \<in> set ?log" for e
    using run_stays_deleted [OF all assms(2) that] .
  have hidden: "i \<notin> fst ` set (runQuery wh None ?log)" if wh: "\<And>e. wh e \<Longrightarrow> \<not> isDeleted e" for wh
  proof
    assume "i \<in> fst ` set (runQuery wh None ?log)"
    then obtain p where p: "p \<in> set (runQuery wh None ?log)" "fst p = i" by blast
    then have pl: "p \<in> set ?log" and w: "wh (snd p)" by (simp_all add: in_runQuery_None)
    have "p = (i, snd p)" using p(2) by (simp add: prod_eq_iff)
    with pl have "(i, snd p) \<in> set ?log" by simp
    then have "isDeleted (snd p)" by (rule gone)
    with wh [OF w] show False by simp
  qed
  have img: "doc_id ` set (map toComment xs) = fst ` set xs" for xs
    by (simp add: image_image)
  show ?thesis
  proof (intro conjI allI impI)
    fix cs assume "getComments (run calls fs1) sid = Inr cs"
    then have "cs = map toComment (runQuery (\<lambda>d. \<not> isDeleted d) None ?log)"
      by (simp add: getComments_Inr)
    then have "doc_id ` set cs = fst ` set (runQuery (\<lambda>d. \<not> isDeleted d) None ?log)"
      by (simp only: img)
    with hidden [of "\<lambda>d. \<not> isDeleted d"] show "i \<notin> doc_id ` set cs" by simp
  next
    fix cs assume "getCommentsByType (run calls fs1) sid ty = Inr cs"
    then have "cs = map toComment (runQuery (\<lambda>d. type d = ty \<and> \<not> isDeleted d) None ?log)"
      by (simp add: getCommentsByType_Inr)
    then have "doc_id ` set cs = fst ` set (runQuery (\<lambda>d. type d = ty \<and> \<not> isDeleted d) None ?log)"
      by (simp only: img)
    with hidden [of "\<lambda>d. type d = ty \<and> \<not> isDeleted d"] show "i \<notin> doc_id ` set cs" by simp
  qed
qed

section \<open>Listing the log\<close>

lemma exec_add_as:
  assumes "adds_id sid i c" and "reachable fs"
  shows "\<exists>d. exec c fs =
             fs\<lparr>ShortFilmComments := (ShortFilmComments fs)(sid := put_doc i d (ShortFilmComments fs sid))\<rparr> \<and>
           \<not> isDeleted d \<and> createdAt d = time_of c \<and> appended_by c d"
proof (cases c)
  case (AddGeneralComment now newId sid' aid aname aemail tx md)
  then show ?thesis using assms
    apply (simp add: addGeneralComment_def addDoc_def)
    apply (rule exI, rule conjI, rule refl, simp)
    done
next
  case (AddScoringComment now newId sid' aid aname aemail sc tx)
  then show ?thesis using assms
    apply (simp add: addScoringComment_def addDoc_def)
    apply (rule exI, rule conjI, rule refl, simp)
    done
next
  case (AddScoringComment_P now newId sid' aid aname aemail sc tx md)
  then show ?thesis using assms
    apply (simp add: addScoringComment_P_def addDoc_def)
    apply (rule exI, rule conjI, rule refl, simp)
    done
next
  case (AddStatusChangeComment now newId sid' aid aname aemail old new reason)
  then show ?thesis using assms
    apply (simp add: addStatusChangeComment_def addDoc_def Let_def split del: if_split)
    apply (rule exI, rule conjI, rule refl, simp)
    done
next
  case (AddFlagComment now newId sid' aid aname aemail flagged reason)
  then show ?thesis using assms
    apply (simp add: addFlagComment_def addDoc_def Let_def split del: if_split)
    apply (rule exI, rule conjI, rule refl, simp)
    done
qed (use assms in auto)

lemma exec_add_listed_as:
  assumes "reachable fs" and "adds_id sid i c"
    and "\<forall>p\<in>set (ShortFilmComments fs sid). createdAt (snd p) < time_of c"
  shows "\<exists>d n rest rest'. appended_by c d \<and> reads_as (i, d) n \<and>
           getComments (exec c fs) sid = Inr (n # rest) \<and>
           getCommentsByType (exec c fs) sid (type d) = Inr (n # rest')"
proof -
  from exec_add_as [OF assms(2,1)] obtain d where
    ex: "exec c fs =
           fs\<lparr>ShortFilmComments := (ShortFilmComments fs)(sid := put_doc i d (ShortFilmComments fs sid))\<rparr>"
    and d: "\<not> isDeleted d" "createdAt d = time_of c" "appended_by c d"
    by blast
  have newest: "\<forall>p\<in>set (ShortFilmComments fs sid). createdAt (snd p) < createdAt d"
    using assms(3) d by simp
  from runQuery_hd_newest [of "\<lambda>d. \<not> isDeleted d" d, OF _ newest] d obtain rest where
    r1: "runQuery (\<lambda>d. \<not> isDeleted d) None (put_doc i d (ShortFilmComments fs sid)) = (i, d) # rest"
    by blast
  from runQuery_hd_newest [of "\<lambda>e. type e = type d \<and> \<not> isDeleted e" d, OF _ newest] d obtain rest' where
    r2: "runQuery (\<lambda>e. type e = type d \<and> \<not> isDeleted e) None (put_doc i d (ShortFilmComments fs sid))
           = (i, d) # rest'"
    by blast
  have g1: "getComments (exec c fs) sid = Inr (toComment (i, d) # map toComment rest)"
    using assms(1) by (simp add: getComments_Inr ex r1)
  have g2: "getCommentsByType (exec c fs) sid (type d)
                   = Inr (toComment (i, d) # map toComment rest')"
    using assms(1) by (simp add: getCommentsByType_Inr ex r2)
  show ?thesis
    apply (rule exI [of _ d])
    apply (rule exI [of _ "toComment (i, d)"])
    apply (rule exI [of _ "map toComment rest"])
    apply (rule exI [of _ "map toComment rest'"])
    apply (intro conjI)
       apply (rule d(3))
      apply (rule reads_as_toComment)
     apply (rule g1)
    apply (rule g2)
    done
qed

lemma getComments_unreachable:
  "\<not> reachable fs \<Longrightarrow>
   getComments fs sid = Inl (Error ''Failed to load comments'') \<and>
   getCommentsByType fs sid ty = Inl (Error ''Failed to load comments'')"
  by (simp add: getComments_def getCommentsByType_def getDocs_def)

lemma listing_of_query:
  "list_all2 reads_as (runQuery wh None c) (map toComment (runQuery wh None c)) \<and>
   newest_first (map toComment (runQuery wh None c)) \<and>
   set (runQuery wh None c) = {p \<in> set c. wh (snd p)} \<and>
   length (runQuery wh None c) = length (filter (\<lambda>p. wh (snd p)) c)"
  by (simp only: list_all2_reads_as newest_first_map_toComment set_runQuery_None
      length_runQuery_None simp_thms)

text \<open>
  C6. When the query succeeds, \<^verbatim>\<open>getComments\<close> returns the stored events whose
  \<^verbatim>\<open>isDeleted\<close> is false, all of them and no other, each with its id and every field of the
  stored document, newest first, and \<^verbatim>\<open>getCommentsByType\<close> those of them that have the given
  type; when the query throws, both throw \<^verbatim>\<open>Error('Failed to load comments')\<close>. After a
  successful \<^verbatim>\<open>deleteComment\<close> of an event, no listing after any sequence of service calls
  holds the event (the ids that \<^verbatim>\<open>addDoc\<close> generates are new: no later call adds the same
  id again). After an append at a server time later than every \<^verbatim>\<open>createdAt\<close> of the log, the
  event that the append asked for (its submission, author, kind, score payload and time) is
  the first element of \<^verbatim>\<open>getComments\<close> and of \<^verbatim>\<open>getCommentsByType\<close> at its kind.
\<close>

theorem getComments_live_newest_first:
  "(reachable fs \<longrightarrow>
      (\<exists>docs cs. getComments fs sid = Inr cs \<and> list_all2 reads_as docs cs \<and> newest_first cs \<and>
         set docs = {p \<in> set (ShortFilmComments fs sid). \<not> isDeleted (snd p)} \<and>
         length docs = length (filter (\<lambda>p. \<not> isDeleted (snd p)) (ShortFilmComments fs sid))) \<and>
      (\<exists>docs cs. getCommentsByType fs sid ty = Inr cs \<and> list_all2 reads_as docs cs \<and>
         newest_first cs \<and>
         set docs = {p \<in> set (ShortFilmComments fs sid). type (snd p) = ty \<and> \<not> isDeleted (snd p)} \<and>
         length docs = length (filter (\<lambda>p. type (snd p) = ty \<and> \<not> isDeleted (snd p))
                                (ShortFilmComments fs sid)))) \<and>
   (\<not> reachable fs \<longrightarrow>
      getComments fs sid = Inl (Error ''Failed to load comments'') \<and>
      getCommentsByType fs sid ty = Inl (Error ''Failed to load comments'')) \<and>
   (deleteComment fs now sid i = Inr fs1 \<and> (\<forall>c\<in>set calls. \<not> adds_id sid i c) \<longrightarrow>
      (\<forall>cs. getComments (run calls fs1) sid = Inr cs \<longrightarrow> i \<notin> doc_id ` set cs) \<and>
      (\<forall>cs. getCommentsByType (run calls fs1) sid ty = Inr cs \<longrightarrow> i \<notin> doc_id ` set cs)) \<and>
   (reachable fs \<and> adds_id sid j c \<and>
    (\<forall>p\<in>set (ShortFilmComments fs sid). createdAt (snd p) < time_of c) \<longrightarrow>
      (\<exists>d n rest rest'. appended_by c d \<and> reads_as (j, d) n \<and>
         getComments (exec c fs) sid = Inr (n # rest) \<and>
         getCommentsByType (exec c fs) sid (type d) = Inr (n # rest')))"
proof (intro conjI impI)
  assume r: "reachable fs"
  let ?q = "runQuery (\<lambda>d. \<not> isDeleted d) None (ShortFilmComments fs sid)"
  have g: "getComments fs sid = Inr (map toComment ?q)"
    using r by (simp add: getComments_Inr)
  show "\<exists>docs cs. getComments fs sid = Inr cs \<and> list_all2 reads_as docs cs \<and> newest_first cs \<and>
         set docs = {p \<in> set (ShortFilmComments fs sid). \<not> isDeleted (snd p)} \<and>
         length docs = length (filter (\<lambda>p. \<not> isDeleted (snd p)) (ShortFilmComments fs sid))"
    apply (rule exI [of _ ?q])
    apply (rule exI [of _ "map toComment ?q"])
    apply (rule conjI, rule g)
    apply (rule listing_of_query)
    done
  let ?t = "runQuery (\<lambda>d. type d = ty \<and> \<not> isDeleted d) None (ShortFilmComments fs sid)"
  have gt: "getCommentsByType fs sid ty = Inr (map toComment ?t)"
    using r by (simp add: getCommentsByType_Inr)
  show "\<exists>docs cs. getCommentsByType fs sid ty = Inr cs \<and> list_all2 reads_as docs cs \<and>
         newest_first cs \<and>
         set docs = {p \<in> set (ShortFilmComments fs sid). type (snd p) = ty \<and> \<not> isDeleted (snd p)} \<and>
         length docs = length (filter (\<lambda>p. type (snd p) = ty \<and> \<not> isDeleted (snd p))
                                (ShortFilmComments fs sid))"
    apply (rule exI [of _ ?t])
    apply (rule exI [of _ "map toComment ?t"])
    apply (rule conjI, rule gt)
    apply (rule listing_of_query)
    done
next
  assume "\<not> reachable fs"
  from getComments_unreachable [OF this, of sid ty]
  show "getComments fs sid = Inl (Error ''Failed to load comments'')"
    and "getCommentsByType fs sid ty = Inl (Error ''Failed to load comments'')"
    by blast+
next
  assume a: "deleteComment fs now sid i = Inr fs1 \<and> (\<forall>c\<in>set calls. \<not> adds_id sid i c)"
  from deleted_never_listed [of fs now sid i fs1 calls ty] a
  show "\<forall>cs. getComments (run calls fs1) sid = Inr cs \<longrightarrow> i \<notin> doc_id ` set cs"
    and "\<forall>cs. getCommentsByType (run calls fs1) sid ty = Inr cs \<longrightarrow> i \<notin> doc_id ` set cs"
    by blast+
next
  assume "reachable fs \<and> adds_id sid j c \<and>
    (\<forall>p\<in>set (ShortFilmComments fs sid). createdAt (snd p) < time_of c)"
  then show "\<exists>d n rest rest'. appended_by c d \<and> reads_as (j, d) n \<and>
         getComments (exec c fs) sid = Inr (n # rest) \<and>
         getCommentsByType (exec c fs) sid (type d) = Inr (n # rest')"
    using exec_add_listed_as [of fs sid j c] by blast
qed

theorem getComments_live_newest_first_witness:
  "reachable ex_mixed \<and>
   list_all2 reads_as [(''e2'', score_event ''B'' 2), (''e1'', general_event ''A'' 1)]
     (projr (getComments ex_mixed ''s1'')) \<and>
   list_all2 reads_as [(''e2'', score_event ''B'' 2)]
     (projr (getCommentsByType ex_mixed ''s1'' Scoring)) \<and>
   \<not> reachable (ex_mixed\<lparr>reachable := False\<rparr>) \<and>
   getComments (ex_mixed\<lparr>reachable := False\<rparr>) ''s1'' = Inl (Error ''Failed to load comments'') \<and>
   \<not> isl (deleteComment ex_mixed 5 ''s1'' ''e1'') \<and>
   \<not> adds_id ''s1'' ''e1'' (UpdateComment 6 ''s1'' ''e1'' ''second cut'') \<and>
   list_all2 reads_as [(''e2'', score_event ''B'' 2)]
     (projr (getComments
        (run [UpdateComment 6 ''s1'' ''e1'' ''second cut''] (projr (deleteComment ex_mixed 5 ''s1'' ''e1'')))
        ''s1'')) \<and>
   adds_id ''s1'' ''e3'' (AddFlagComment 7 ''e3'' ''s1'' ''A'' ''Ann'' ''ann@x'' True None) \<and>
   appended_by (AddFlagComment 7 ''e3'' ''s1'' ''A'' ''Ann'' ''ann@x'' True None) (flag_event ''A'' 7) \<and>
   list_all2 reads_as
     [(''e3'', flag_event ''A'' 7), (''e2'', score_event ''B'' 2), (''e1'', general_event ''A'' 1)]
     (projr (getComments
        (exec (AddFlagComment 7 ''e3'' ''s1'' ''A'' ''Ann'' ''ann@x'' True None) ex_mixed) ''s1'')) \<and>
   list_all2 reads_as [(''e3'', flag_event ''A'' 7)]
     (projr (getCommentsByType
        (exec (AddFlagComment 7 ''e3'' ''s1'' ''A'' ''Ann'' ''ann@x'' True None) ex_mixed) ''s1'' Flag))"
proof -
  have c: "reachable ex_mixed \<and>
   list_all2 reads_as [(''e2'', score_event ''B'' 2), (''e1'', general_event ''A'' 1)]
     (projr (getComments ex_mixed ''s1'')) \<and>
   list_all2 reads_as [(''e2'', score_event ''B'' 2)]
     (projr (getCommentsByType ex_mixed ''s1'' Scoring)) \<and>
   \<not> reachable (ex_mixed\<lparr>reachable := False\<rparr>) \<and>
   getComments (ex_mixed\<lparr>reachable := False\<rparr>) ''s1'' = Inl (Error ''Failed to load comments'') \<and>
   \<not> isl (deleteComment ex_mixed 5 ''s1'' ''e1'') \<and>
   \<not> adds_id ''s1'' ''e1'' (UpdateComment 6 ''s1'' ''e1'' ''second cut'') \<and>
   list_all2 reads_as [(''e2'', score_event ''B'' 2)]
     (projr (getComments
        (run [UpdateComment 6 ''s1'' ''e1'' ''second cut''] (projr (deleteComment ex_mixed 5 ''s1'' ''e1'')))
        ''s1'')) \<and>
   adds_id ''s1'' ''e3'' (AddFlagComment 7 ''e3'' ''s1'' ''A'' ''Ann'' ''ann@x'' True None) \<and>
   appended_by (AddFlagComment 7 ''e3'' ''s1'' ''A'' ''Ann'' ''ann@x'' True None) (flag_event ''A'' 7) \<and>
   list_all2 reads_as
     [(''e3'', flag_event ''A'' 7), (''e2'', score_event ''B'' 2), (''e1'', general_event ''A'' 1)]
     (projr (getComments
        (exec (AddFlagComment 7 ''e3'' ''s1'' ''A'' ''Ann'' ''ann@x'' True None) ex_mixed) ''s1'')) \<and>
   list_all2 reads_as [(''e3'', flag_event ''A'' 7)]
     (projr (getCommentsByType
        (exec (AddFlagComment 7 ''e3'' ''s1'' ''A'' ''Ann'' ''ann@x'' True None) ex_mixed) ''s1'' Flag))"
    by (simp add: ex_mixed_def store_of_def getComments_def getCommentsByType_def getDocs_def
        runQuery_def orderByCreatedAtDesc_def deleteComment_def updateComment_def updateDoc_def
        addFlagComment_def addDoc_def put_doc_def patch_doc_def has_doc_def toComment_def
        general_event_def score_event_def deleted_event_def flag_event_def reads_as_def Let_def)
  show ?thesis
    using getComments_live_newest_first [of ex_mixed "''s1''" Scoring 5 "''e1''"
      "projr (deleteComment ex_mixed 5 ''s1'' ''e1'')" "[UpdateComment 6 ''s1'' ''e1'' ''second cut'']"
      "''e3''" "AddFlagComment 7 ''e3'' ''s1'' ''A'' ''Ann'' ''ann@x'' True None"]
      getComments_live_newest_first [of "ex_mixed\<lparr>reachable := False\<rparr>" "''s1''" Scoring 5 "''e1''"
      "projr (deleteComment ex_mixed 5 ''s1'' ''e1'')" "[UpdateComment 6 ''s1'' ''e1'' ''second cut'']"
      "''e3''" "AddFlagComment 7 ''e3'' ''s1'' ''A'' ''Ann'' ''ann@x'' True None"]
    by - (rule c)
qed

section \<open>Fresh events\<close>

lemma exec_add_fresh:
  assumes "reachable fs" and "adds_id sid i c"
  shows "has_doc (ShortFilmComments (exec c fs) sid) i \<and>
         (\<forall>d. (i, d) \<in> set (ShortFilmComments (exec c fs) sid) \<longrightarrow> \<not> isEdited d \<and> \<not> isDeleted d) \<and>
         reachable (exec c fs) \<and>
         i \<in> fst ` set (runQuery (\<lambda>d. \<not> isDeleted d) None (ShortFilmComments (exec c fs) sid))"
proof -
  from exec_add [OF assms(2,1)] obtain d where
    ex: "exec c fs =
           fs\<lparr>ShortFilmComments := (ShortFilmComments fs)(sid := put_doc i d (ShortFilmComments fs sid))\<rparr>"
    and d: "\<not> isEdited d" "\<not> isDeleted d"
    by blast
  have 1: "has_doc (ShortFilmComments (exec c fs) sid) i"
    by (simp add: ex has_doc_put_doc)
  have 2: "\<forall>e. (i, e) \<in> set (ShortFilmComments (exec c fs) sid) \<longrightarrow> \<not> isEdited e \<and> \<not> isDeleted e"
    using d by (simp add: ex in_put_doc)
  have 3: "reachable (exec c fs)" using assms(1) by (simp add: ex)
  have "(i, d) \<in> set (runQuery (\<lambda>d. \<not> isDeleted d) None (ShortFilmComments (exec c fs) sid))"
    using d by (simp add: ex in_runQuery_None in_put_doc)
  then have 4: "i \<in> fst ` set (runQuery (\<lambda>d. \<not> isDeleted d) None (ShortFilmComments (exec c fs) sid))"
    by force
  show ?thesis using 1 2 3 4 by blast
qed

lemma onSnapshot_fire_reachable:
  "reachable fs \<Longrightarrow>
   onSnapshot_fire fs sid (subscribeToComments cb) u
     = cb (map toComment (runQuery (\<lambda>d. \<not> isDeleted d) None (ShortFilmComments fs sid))) u \<and>
   onSnapshot_fire fs sid (subscribeToComments_P cb) u
     = cb (map toComment (runQuery (\<lambda>d. \<not> isDeleted d) None (ShortFilmComments fs sid))) u"
  by (simp add: onSnapshot_fire_def subscribeToComments_def subscribeToComments_P_def getDocs_def)

text \<open>
  C10. Every append (\<^verbatim>\<open>addGeneralComment\<close>, \<^verbatim>\<open>addScoringComment\<close> in both copies,
  \<^verbatim>\<open>addStatusChangeComment\<close>, \<^verbatim>\<open>addFlagComment\<close>; the calls that \<open>adds_id\<close> holds of)
  that reaches the backend stores the event with \<^verbatim>\<open>isEdited = false\<close> and
  \<^verbatim>\<open>isDeleted = false\<close>; the new event is in the result of \<^verbatim>\<open>getComments\<close>, and that
  result is what a subscription delivers to its callback. In a log that starts with no
  edited and no deleted event, an event that is edited after a sequence of service calls was
  the target of an \<^verbatim>\<open>updateComment\<close> of the sequence, and an event that is deleted was the
  target of a \<^verbatim>\<open>deleteComment\<close>.
\<close>

theorem appended_event_fresh_and_visible:
  "(reachable fs \<and> adds_id sid i c \<longrightarrow>
      has_doc (ShortFilmComments (exec c fs) sid) i \<and>
      (\<forall>d. (i, d) \<in> set (ShortFilmComments (exec c fs) sid) \<longrightarrow> \<not> isEdited d \<and> \<not> isDeleted d) \<and>
      (\<exists>cs. i \<in> doc_id ` set cs \<and> getComments (exec c fs) sid = Inr cs \<and>
         (\<forall>u. onSnapshot_fire (exec c fs) sid (subscribeToComments cb) u = cb cs u) \<and>
         (\<forall>u. onSnapshot_fire (exec c fs) sid (subscribeToComments_P cb) u = cb cs u))) \<and>
   ((\<forall>p\<in>set (ShortFilmComments fs0 sid). \<not> isEdited (snd p) \<and> \<not> isDeleted (snd p)) \<and>
    (j, e) \<in> set (ShortFilmComments (run calls fs0) sid) \<longrightarrow>
      (isEdited e \<longrightarrow> (\<exists>c\<in>set calls. is_edit_of sid j c)) \<and>
      (isDeleted e \<longrightarrow> (\<exists>c\<in>set calls. is_delete_of sid j c)))"
proof (intro conjI impI)
  assume a: "reachable fs \<and> adds_id sid i c"
  then have f: "has_doc (ShortFilmComments (exec c fs) sid) i"
      "\<forall>d. (i, d) \<in> set (ShortFilmComments (exec c fs) sid) \<longrightarrow> \<not> isEdited d \<and> \<not> isDeleted d"
      "reachable (exec c fs)"
      "i \<in> fst ` set (runQuery (\<lambda>d. \<not> isDeleted d) None (ShortFilmComments (exec c fs) sid))"
    using exec_add_fresh [of fs sid i c] by blast+
  show "has_doc (ShortFilmComments (exec c fs) sid) i" by (rule f(1))
  show "\<forall>d. (i, d) \<in> set (ShortFilmComments (exec c fs) sid) \<longrightarrow> \<not> isEdited d \<and> \<not> isDeleted d"
    by (rule f(2))
  let ?cs = "map toComment (runQuery (\<lambda>d. \<not> isDeleted d) None (ShortFilmComments (exec c fs) sid))"
  have "doc_id ` set ?cs = fst ` set (runQuery (\<lambda>d. \<not> isDeleted d) None (ShortFilmComments (exec c fs) sid))"
    by (simp add: image_image)
  with f(4) have 1: "i \<in> doc_id ` set ?cs" by simp
  have 2: "getComments (exec c fs) sid = Inr ?cs"
    using f(3) by (simp add: getComments_Inr)
  have 3: "\<forall>u. onSnapshot_fire (exec c fs) sid (subscribeToComments cb) u = cb ?cs u"
    and 4: "\<forall>u. onSnapshot_fire (exec c fs) sid (subscribeToComments_P cb) u = cb ?cs u"
    using onSnapshot_fire_reachable [OF f(3), of sid cb] by blast+
  show "\<exists>cs. i \<in> doc_id ` set cs \<and> getComments (exec c fs) sid = Inr cs \<and>
         (\<forall>u. onSnapshot_fire (exec c fs) sid (subscribeToComments cb) u = cb cs u) \<and>
         (\<forall>u. onSnapshot_fire (exec c fs) sid (subscribeToComments_P cb) u = cb cs u)"
    apply (rule exI [of _ ?cs])
    apply (intro conjI)
       apply (rule 1)
      apply (rule 2)
     apply (rule 3)
    apply (rule 4)
    done
next
  assume a: "(\<forall>p\<in>set (ShortFilmComments fs0 sid). \<not> isEdited (snd p) \<and> \<not> isDeleted (snd p)) \<and>
    (j, e) \<in> set (ShortFilmComments (run calls fs0) sid)"
  assume "isEdited e"
  with a run_isEdited [of j e calls fs0 sid] show "\<exists>c\<in>set calls. is_edit_of sid j c"
    by fastforce
next
  assume a: "(\<forall>p\<in>set (ShortFilmComments fs0 sid). \<not> isEdited (snd p) \<and> \<not> isDeleted (snd p)) \<and>
    (j, e) \<in> set (ShortFilmComments (run calls fs0) sid)"
  assume "isDeleted e"
  with a run_isDeleted [of j e calls fs0 sid] show "\<exists>c\<in>set calls. is_delete_of sid j c"
    by fastforce
qed

theorem appended_event_fresh_and_visible_witness:
  "reachable (store_of []) \<and>
   adds_id ''s1'' ''e1'' (AddStatusChangeComment 3 ''e1'' ''s1'' ''A'' ''Ann'' ''ann@x'' ''pending'' ''approved'' None) \<and>
   map (\<lambda>p. (fst p, isEdited (snd p), isDeleted (snd p)))
     (ShortFilmComments
        (exec (AddStatusChangeComment 3 ''e1'' ''s1'' ''A'' ''Ann'' ''ann@x'' ''pending'' ''approved'' None)
           (store_of [])) ''s1'')
     = [(''e1'', False, False)] \<and>
   map doc_id (projr (getComments
        (exec (AddStatusChangeComment 3 ''e1'' ''s1'' ''A'' ''Ann'' ''ann@x'' ''pending'' ''approved'' None)
           (store_of [])) ''s1'')) = [''e1''] \<and>
   map (\<lambda>p. (fst p, isEdited (snd p), isDeleted (snd p)))
     (ShortFilmComments
        (run [AddGeneralComment 1 ''e1'' ''s1'' ''A'' ''Ann'' ''ann@x'' ''first cut'' None,
              UpdateComment 2 ''s1'' ''e1'' ''second cut'', DeleteComment 3 ''s1'' ''e1'']
           (store_of [])) ''s1'')
     = [(''e1'', True, True)] \<and>
   is_edit_of ''s1'' ''e1'' (UpdateComment 2 ''s1'' ''e1'' ''second cut'') \<and>
   is_delete_of ''s1'' ''e1'' (DeleteComment 3 ''s1'' ''e1'')"
proof -
  have c: "reachable (store_of []) \<and>
   adds_id ''s1'' ''e1'' (AddStatusChangeComment 3 ''e1'' ''s1'' ''A'' ''Ann'' ''ann@x'' ''pending'' ''approved'' None) \<and>
   map (\<lambda>p. (fst p, isEdited (snd p), isDeleted (snd p)))
     (ShortFilmComments
        (exec (AddStatusChangeComment 3 ''e1'' ''s1'' ''A'' ''Ann'' ''ann@x'' ''pending'' ''approved'' None)
           (store_of [])) ''s1'')
     = [(''e1'', False, False)] \<and>
   map doc_id (projr (getComments
        (exec (AddStatusChangeComment 3 ''e1'' ''s1'' ''A'' ''Ann'' ''ann@x'' ''pending'' ''approved'' None)
           (store_of [])) ''s1'')) = [''e1''] \<and>
   map (\<lambda>p. (fst p, isEdited (snd p), isDeleted (snd p)))
     (ShortFilmComments
        (run [AddGeneralComment 1 ''e1'' ''s1'' ''A'' ''Ann'' ''ann@x'' ''first cut'' None,
              UpdateComment 2 ''s1'' ''e1'' ''second cut'', DeleteComment 3 ''s1'' ''e1'']
           (store_of [])) ''s1'')
     = [(''e1'', True, True)] \<and>
   is_edit_of ''s1'' ''e1'' (UpdateComment 2 ''s1'' ''e1'' ''second cut'') \<and>
   is_delete_of ''s1'' ''e1'' (DeleteComment 3 ''s1'' ''e1'')"
    by (simp add: store_of_def getComments_def getDocs_def runQuery_def orderByCreatedAtDesc_def
        deleteComment_def updateComment_def updateDoc_def addStatusChangeComment_def
        addGeneralComment_def addDoc_def put_doc_def patch_doc_def has_doc_def toComment_def
        Let_def)
  show ?thesis
    using appended_event_fresh_and_visible [of "store_of []" "''s1''" "''e1''"
      "AddStatusChangeComment 3 ''e1'' ''s1'' ''A'' ''Ann'' ''ann@x'' ''pending'' ''approved'' None"
      comments_callback "store_of []" "''e1''"
      "(general_event ''A'' 1)\<lparr>isEdited := True, isDeleted := True\<rparr>"
      "[AddGeneralComment 1 ''e1'' ''s1'' ''A'' ''Ann'' ''ann@x'' ''first cut'' None,
        UpdateComment 2 ''s1'' ''e1'' ''second cut'', DeleteComment 3 ''s1'' ''e1'']"]
    by - (rule c)
qed

end
